theory Spec2Isabelle
  imports Complex_Main
begin

section \<open>Bragg-disk detection of py4DSTEM: \<open>process/braggdiskdetection/diskdetection.py\<close>\<close>

text \<open>
  Floating-point numbers are modelled as real (and complex) numbers; the places where
  IEEE arithmetic differs visibly from the field operations of HOL (division by zero,
  \<open>0 ** 0\<close>, rounding half to even) are written out.
\<close>

subsection \<open>Errors\<close>

text \<open>
  The conditions of the error taxonomy. \<open>InvalidConfiguration\<close> is the failed assertion on
  the subpixel option, \<open>SchemaMismatch\<close> a failed assertion on the coordinates of a peak
  list, \<open>ValueError\<close> is Python's own exception (\<open>max\<close> of an empty sequence).
\<close>

datatype error = InvalidConfiguration | SchemaMismatch | ShapeMismatch | ValueError | IndexError

definition bind_err :: "error + 'a \<Rightarrow> ('a \<Rightarrow> error + 'b) \<Rightarrow> error + 'b" where
  "bind_err r f = (case r of Inl e \<Rightarrow> Inl e | Inr x \<Rightarrow> f x)"

text \<open>A \<open>for\<close> loop whose body may raise: the first exception ends the loop.\<close>

fun for_each :: "('i \<Rightarrow> 's \<Rightarrow> error + 's) \<Rightarrow> 'i list \<Rightarrow> 's \<Rightarrow> error + 's" where
  "for_each body [] s = Inr s"
| "for_each body (i # is) s = (case body i s of Inl e \<Rightarrow> Inl e | Inr s' \<Rightarrow> for_each body is s')"

subsection \<open>PointList and PointListArray\<close>

datatype dtype = Float | Int

text \<open>One row of the structured array behind a PointList of Bragg peaks.\<close>

record peak =
  qx :: real
  qy :: real
  intensity :: real

record pointlist =
  coordinates :: "(string \<times> dtype) list"
  data :: "peak list"

text \<open>The schema \<open>coords = [('qx',float),('qy',float),('intensity',float)]\<close>.\<close>

definition coords :: "(string \<times> dtype) list" where
  "coords = [(''qx'', Float), (''qy'', Float), (''intensity'', Float)]"

text \<open>
  Modelled from the spec: the constructor \<open>PointList(coordinates=...)\<close> of the class
  PointList, which is not among the sources: a new peak list has the given schema and no
  rows.
\<close>

definition PointList :: "(string \<times> dtype) list \<Rightarrow> pointlist" where
  "PointList cs = \<lparr>coordinates = cs, data = []\<rparr>"

datatype sort_order = Ascending | Descending

text \<open>
  Modelled from the spec: \<open>PointList.sort(coordinate, order)\<close>, which is not among the
  sources: a stable in-place sort of all rows by the named column, ascending or
  descending. The column is given by its selector.
\<close>

definition pl_sort :: "(peak \<Rightarrow> real) \<Rightarrow> sort_order \<Rightarrow> pointlist \<Rightarrow> pointlist" where
  "pl_sort column ord pl =
     (case ord of
        Ascending \<Rightarrow> pl\<lparr>data := sort_key column (data pl)\<rparr>
      | Descending \<Rightarrow> pl\<lparr>data := sort_key (\<lambda>r. - column r) (data pl)\<rparr>)"

text \<open>
  Modelled from the spec: \<open>PointList.remove_points(mask)\<close>, which is not among the
  sources: the rows marked true in the mask are deleted from all columns in lockstep; a
  mask whose length is not the row count fails with ShapeMismatch.
\<close>

definition remove_points :: "bool list \<Rightarrow> pointlist \<Rightarrow> error + pointlist" where
  "remove_points deletemask pl =
     (if length deletemask \<noteq> length (data pl) then Inl ShapeMismatch
      else Inr (pl\<lparr>data := map fst (filter (\<lambda>(r, d). \<not> d) (zip (data pl) deletemask))\<rparr>))"

text \<open>
  Modelled from the spec: the class PointListArray, which is not among the sources: a
  two-dimensional grid of peak lists of fixed shape \<open>(numRx, numRy)\<close> with a shared schema,
  with constant-time lookup of the cell at \<open>(Rx, Ry)\<close>. The cells are kept as a lookup
  function; only the positions inside the shape are cells of the grid.
\<close>

record pointlistarray =
  pla_coordinates :: "(string \<times> dtype) list"
  pla_shape :: "nat \<times> nat"
  pla_cells :: "nat \<times> nat \<Rightarrow> pointlist"

definition PointListArray :: "(string \<times> dtype) list \<Rightarrow> nat \<times> nat \<Rightarrow> pointlistarray" where
  "PointListArray cs shp =
     \<lparr>pla_coordinates = cs, pla_shape = shp, pla_cells = (\<lambda>_. PointList cs)\<rparr>"

definition get_pointlist :: "pointlistarray \<Rightarrow> nat \<Rightarrow> nat \<Rightarrow> error + pointlist" where
  "get_pointlist pla Rx Ry =
     (if Rx < fst (pla_shape pla) \<and> Ry < snd (pla_shape pla) then Inr (pla_cells pla (Rx, Ry))
      else Inl IndexError)"

text \<open>
  The peak list returned by \<open>get_pointlist\<close> is the cell itself, so a mutation of it is a
  mutation of the grid: the mutated list is stored back at its position.
\<close>

definition store_pointlist :: "pointlistarray \<Rightarrow> nat \<Rightarrow> nat \<Rightarrow> pointlist \<Rightarrow> pointlistarray" where
  "store_pointlist pla Rx Ry pl = pla\<lparr>pla_cells := (pla_cells pla)((Rx, Ry) := pl)\<rparr>"

text \<open>
  The positions of the nested loops \<open>for Rx in range(nx): for Ry in range(ny)\<close>, in the
  order in which the loops visit them.
\<close>

definition scan_positions :: "nat \<Rightarrow> nat \<Rightarrow> (nat \<times> nat) list" where
  "scan_positions nx ny = concat (map (\<lambda>Rx. map (\<lambda>Ry. (Rx, Ry)) [0..<ny]) [0..<nx])"

subsection \<open>\<open>threshold_Braggpeaks\<close>\<close>

text \<open>
  The three parameters are numbers, or Python's \<open>False\<close> to skip a threshold: \<open>None\<close>
  stands for \<open>False\<close>, which the code tests with \<open>is not False\<close>.
\<close>

text \<open>Python's \<open>max\<close> of a sequence: an empty sequence raises ValueError.\<close>

definition py_max :: "real list \<Rightarrow> error + real" where
  "py_max xs = (case xs of [] \<Rightarrow> Inl ValueError | x # rest \<Rightarrow> Inr (fold max rest x))"

text \<open>
  The elementwise test \<open>intensity / max < minRelativeIntensity\<close> of numpy. Division by
  zero does not raise there: a negative number over zero is minus infinity, which is below
  every threshold; zero or a positive number over zero is NaN or plus infinity, and the
  comparison is false.
\<close>

definition ratio_below :: "real \<Rightarrow> real \<Rightarrow> real \<Rightarrow> bool" where
  "ratio_below x mx t = (if mx = 0 then x < 0 else x / mx < t)"

text \<open>Lines 346 to 350: remove the peaks below the relative intensity threshold.\<close>

definition intensity_step :: "real option \<Rightarrow> pointlist \<Rightarrow> error + pointlist" where
  "intensity_step minRelativeIntensity pl =
     (case minRelativeIntensity of
        None \<Rightarrow> Inr pl
      | Some t \<Rightarrow>
          bind_err (py_max (map intensity (data pl)))
            (\<lambda>mx. remove_points (map (\<lambda>r. ratio_below (intensity r) mx t) (data pl)) pl))"

definition dist2 :: "peak \<Rightarrow> peak \<Rightarrow> real" where
  "dist2 r p = (qx r - qx p)\<^sup>2 + (qy r - qy p)\<^sup>2"

text \<open>
  The body of the loop of lines 356 to 361 for one \<open>i\<close>: \<open>tooClose\<close> marks the rows
  nearer than the spacing to row \<open>i\<close>, its first \<open>i + 1\<close> entries are cleared, and the rows
  it marks are marked in \<open>deletemask\<close>.
\<close>

definition sweep_body :: "real \<Rightarrow> peak list \<Rightarrow> nat \<Rightarrow> bool list \<Rightarrow> bool list" where
  "sweep_body r2 rows i deletemask =
     (if deletemask ! i = False then
        (let tooClose = map (\<lambda>r. dist2 r (rows ! i) < r2) rows;
             tooClose' = map (\<lambda>(j, c). if j < i + 1 then False else c) (enumerate 0 tooClose)
         in map (\<lambda>(d, c). if c then True else d) (zip deletemask tooClose'))
      else deletemask)"

definition sweep :: "real \<Rightarrow> peak list \<Rightarrow> nat list \<Rightarrow> bool list" where
  "sweep r2 rows is = fold (sweep_body r2 rows) is (replicate (length rows) False)"

definition spacing_deletemask :: "real \<Rightarrow> peak list \<Rightarrow> bool list" where
  "spacing_deletemask r2 rows = sweep r2 rows [0..<length rows]"

text \<open>\<open>minPeakSpacing**2\<close>; Python's \<open>False**2\<close> is \<open>0\<close>.\<close>

definition spacing_squared :: "real option \<Rightarrow> real" where
  "spacing_squared minPeakSpacing = (case minPeakSpacing of None \<Rightarrow> 0 | Some s \<Rightarrow> s\<^sup>2)"

text \<open>
  Lines 352 to 362: remove the peaks that are too close together. The test of line 353 is
  on \<open>maxNumPeaks\<close>.
\<close>

definition spacing_step :: "real option \<Rightarrow> int option \<Rightarrow> pointlist \<Rightarrow> error + pointlist" where
  "spacing_step minPeakSpacing maxNumPeaks pl =
     (case maxNumPeaks of
        None \<Rightarrow> Inr pl
      | Some _ \<Rightarrow> remove_points (spacing_deletemask (spacing_squared minPeakSpacing) (data pl)) pl)"

text \<open>
  \<open>deletemask[maxNumPeaks:] = True\<close> on a mask of \<open>n\<close> entries, all false before: a
  negative start counts from the end, as Python's slices do.
\<close>

definition slice_from_mask :: "int \<Rightarrow> nat \<Rightarrow> bool list" where
  "slice_from_mask start n =
     (let first = (if start < 0 then max (int n + start) 0 else min start (int n))
      in map (\<lambda>j. first \<le> int j) [0..<n])"

text \<open>Lines 364 to 369: keep only up to \<open>maxNumPeaks\<close> peaks.\<close>

definition count_step :: "int option \<Rightarrow> pointlist \<Rightarrow> error + pointlist" where
  "count_step maxNumPeaks pl =
     (case maxNumPeaks of
        None \<Rightarrow> Inr pl
      | Some n \<Rightarrow>
          if n < int (length (data pl))
          then remove_points (slice_from_mask n (length (data pl))) pl
          else Inr pl)"

text \<open>The cell after the sort and the two filters that come before the truncation.\<close>

definition filtered_pointlist ::
  "real option \<Rightarrow> real option \<Rightarrow> int option \<Rightarrow> pointlist \<Rightarrow> error + pointlist" where
  "filtered_pointlist minRelativeIntensity minPeakSpacing maxNumPeaks pl =
     bind_err (intensity_step minRelativeIntensity (pl_sort intensity Descending pl))
       (spacing_step minPeakSpacing maxNumPeaks)"

text \<open>The body of the loops of \<open>threshold_Braggpeaks\<close> on one cell, lines 343 to 369.\<close>

definition threshold_pointlist ::
  "real option \<Rightarrow> real option \<Rightarrow> int option \<Rightarrow> pointlist \<Rightarrow> error + pointlist" where
  "threshold_pointlist minRelativeIntensity minPeakSpacing maxNumPeaks pl =
     bind_err (filtered_pointlist minRelativeIntensity minPeakSpacing maxNumPeaks pl)
       (count_step maxNumPeaks)"

definition threshold_cell ::
  "real option \<Rightarrow> real option \<Rightarrow> int option \<Rightarrow> nat \<times> nat \<Rightarrow> pointlistarray
    \<Rightarrow> error + pointlistarray" where
  "threshold_cell minRelativeIntensity minPeakSpacing maxNumPeaks pos pla =
     bind_err (get_pointlist pla (fst pos) (snd pos))
       (\<lambda>pl. bind_err (threshold_pointlist minRelativeIntensity minPeakSpacing maxNumPeaks pl)
          (\<lambda>pl'. Inr (store_pointlist pla (fst pos) (snd pos) pl')))"

text \<open>
  Line 340 asserts that the coordinates of the grid include \<open>'qx'\<close>, \<open>'qy'\<close> and
  \<open>'intensity'\<close>; then every cell is thresholded in place, row by row.
\<close>

definition threshold_Braggpeaks ::
  "pointlistarray \<Rightarrow> real option \<Rightarrow> real option \<Rightarrow> int option \<Rightarrow> error + pointlistarray" where
  "threshold_Braggpeaks pointlistarray minRelativeIntensity minPeakSpacing maxNumPeaks =
     (if \<not> list_all (\<lambda>item. item \<in> set (map fst (pla_coordinates pointlistarray)))
               [''qx'', ''qy'', ''intensity'']
      then Inl SchemaMismatch
      else for_each (threshold_cell minRelativeIntensity minPeakSpacing maxNumPeaks)
             (scan_positions (fst (pla_shape pointlistarray)) (snd (pla_shape pointlistarray)))
             pointlistarray)"

subsection \<open>Arrays, the Fourier transform and the Gaussian filter\<close>

text \<open>
  A two-dimensional numpy array: its shape and its element at every position of the
  shape. Only the positions inside the shape are elements of the array.
\<close>

record 'a ndarray2 =
  arr_shape :: "nat \<times> nat"
  arr_at :: "nat \<Rightarrow> nat \<Rightarrow> 'a"

definition as_complex :: "real ndarray2 \<Rightarrow> complex ndarray2" where
  "as_complex a = \<lparr>arr_shape = arr_shape a, arr_at = (\<lambda>i j. complex_of_real (arr_at a i j))\<rparr>"

text \<open>\<open>np.real\<close>, \<open>np.conj\<close> and \<open>np.maximum(a, 0)\<close>, elementwise.\<close>

definition np_real :: "complex ndarray2 \<Rightarrow> real ndarray2" where
  "np_real a = \<lparr>arr_shape = arr_shape a, arr_at = (\<lambda>i j. Re (arr_at a i j))\<rparr>"

definition np_conj :: "complex ndarray2 \<Rightarrow> complex ndarray2" where
  "np_conj a = \<lparr>arr_shape = arr_shape a, arr_at = (\<lambda>i j. cnj (arr_at a i j))\<rparr>"

definition np_maximum0 :: "real ndarray2 \<Rightarrow> real ndarray2" where
  "np_maximum0 a = \<lparr>arr_shape = arr_shape a, arr_at = (\<lambda>i j. max (arr_at a i j) 0)\<rparr>"

text \<open>
  \<open>np.fft.fft2\<close> and \<open>np.fft.ifft2\<close> of numpy, as the discrete Fourier transform they
  compute; an array with no elements raises ValueError there.
\<close>

definition fft2 :: "complex ndarray2 \<Rightarrow> error + complex ndarray2" where
  "fft2 a =
     (let M = fst (arr_shape a); N = snd (arr_shape a)
      in if M = 0 \<or> N = 0 then Inl ValueError
         else Inr \<lparr>arr_shape = (M, N),
                   arr_at = (\<lambda>k l. \<Sum>m\<leftarrow>[0..<M]. \<Sum>n\<leftarrow>[0..<N].
                       arr_at a m n *
                       cis (- (2 * pi * (real k * real m / real M + real l * real n / real N))))\<rparr>)"

definition ifft2 :: "complex ndarray2 \<Rightarrow> error + complex ndarray2" where
  "ifft2 a =
     (let M = fst (arr_shape a); N = snd (arr_shape a)
      in if M = 0 \<or> N = 0 then Inl ValueError
         else Inr \<lparr>arr_shape = (M, N),
                   arr_at = (\<lambda>m n. (\<Sum>k\<leftarrow>[0..<M]. \<Sum>l\<leftarrow>[0..<N].
                       arr_at a k l *
                       cis (2 * pi * (real k * real m / real M + real l * real n / real N)))
                     / complex_of_real (real (M * N)))\<rparr>)"

text \<open>
  The elementwise product \<open>a * b\<close> of numpy, with its broadcasting: along each axis the
  lengths are equal or one of them is \<open>1\<close>, and anything else raises ValueError.
\<close>

definition broadcast_dim :: "nat \<Rightarrow> nat \<Rightarrow> nat option" where
  "broadcast_dim m n = (if m = n then Some m else if m = 1 then Some n else if n = 1 then Some m else None)"

definition np_multiply :: "complex ndarray2 \<Rightarrow> complex ndarray2 \<Rightarrow> error + complex ndarray2" where
  "np_multiply a b =
     (case (broadcast_dim (fst (arr_shape a)) (fst (arr_shape b)),
            broadcast_dim (snd (arr_shape a)) (snd (arr_shape b))) of
        (Some M, Some N) \<Rightarrow>
          Inr \<lparr>arr_shape = (M, N),
               arr_at = (\<lambda>i j.
                 arr_at a (if fst (arr_shape a) = 1 then 0 else i) (if snd (arr_shape a) = 1 then 0 else j) *
                 arr_at b (if fst (arr_shape b) = 1 then 0 else i) (if snd (arr_shape b) = 1 then 0 else j))\<rparr>
      | _ \<Rightarrow> Inl ValueError)"

text \<open>
  \<open>x ** p\<close> of numpy on a magnitude \<open>x \<ge> 0\<close> and a power \<open>p \<ge> 0\<close>: \<open>0 ** 0\<close> is
  \<open>1\<close> there.
\<close>

definition np_power :: "real \<Rightarrow> real \<Rightarrow> real" where
  "np_power x p = (if p = 0 then 1 else x powr p)"

text \<open>
  \<open>np.abs(m)**(corrPower) * np.exp(1j*np.angle(m))\<close>, elementwise; \<open>np.angle\<close> is the
  argument in the interval from \<open>-pi\<close> (excluded) to \<open>pi\<close>, and \<open>0\<close> at \<open>0\<close>, as \<open>Arg\<close>.
\<close>

definition hybrid_spectrum :: "complex ndarray2 \<Rightarrow> real \<Rightarrow> complex ndarray2" where
  "hybrid_spectrum m corrPower =
     \<lparr>arr_shape = arr_shape m,
      arr_at = (\<lambda>k l. complex_of_real (np_power (cmod (arr_at m k l)) corrPower) *
                       cis (Arg (arr_at m k l)))\<rparr>"

text \<open>
  \<open>gaussian_filter(input, sigma)\<close> of scipy.ndimage with its default arguments: along
  each axis in turn the array is correlated with the normalised Gaussian weights
  \<open>exp(-x\<^sup>2 / (2 sigma\<^sup>2))\<close> for \<open>x\<close> from \<open>-lw\<close> to \<open>lw\<close>, where
  \<open>lw = int(4.0 * sigma + 0.5)\<close>; beyond its ends the array is continued by reflection
  (\<open>d c b a | a b c d | d c b a\<close>); an axis is left alone unless \<open>sigma > 1e-15\<close>.
\<close>

definition gaussian_radius :: "real \<Rightarrow> int" where
  "gaussian_radius sigma = \<lfloor>4 * sigma + 1 / 2\<rfloor>"

definition gaussian_phi :: "real \<Rightarrow> int \<Rightarrow> real" where
  "gaussian_phi sigma x = exp (- (1 / 2) / sigma\<^sup>2 * (real_of_int x)\<^sup>2)"

definition gaussian_kernel1d :: "real \<Rightarrow> int \<Rightarrow> int \<Rightarrow> real" where
  "gaussian_kernel1d sigma lw x =
     gaussian_phi sigma x / (\<Sum>y\<leftarrow>[- lw..lw]. gaussian_phi sigma y)"

definition reflect_index :: "nat \<Rightarrow> int \<Rightarrow> nat" where
  "reflect_index n i =
     (let m = i mod (2 * int n) in nat (if m < int n then m else 2 * int n - 1 - m))"

definition gaussian_filter1d :: "real ndarray2 \<Rightarrow> real \<Rightarrow> nat \<Rightarrow> real ndarray2" where
  "gaussian_filter1d a sigma axis =
     (let lw = gaussian_radius sigma; M = fst (arr_shape a); N = snd (arr_shape a)
      in \<lparr>arr_shape = arr_shape a,
          arr_at = (\<lambda>i j. \<Sum>x\<leftarrow>[- lw..lw]. gaussian_kernel1d sigma lw x *
                      (if axis = 0 then arr_at a (reflect_index M (int i + x)) j
                       else arr_at a i (reflect_index N (int j + x))))\<rparr>)"

definition gaussian_filter :: "real ndarray2 \<Rightarrow> real \<Rightarrow> real ndarray2" where
  "gaussian_filter a sigma =
     (if 1 / 10 ^ 15 < sigma then gaussian_filter1d (gaussian_filter1d a sigma 0) sigma 1 else a)"

subsection \<open>The helper functions of \<open>process/utils\<close>\<close>

text \<open>
  \<open>get_maxima_2D\<close> and \<open>upsampled_correlation\<close> are not among the sources; they are
  parameters of the model, with the arguments the code passes them. \<open>get_maxima_2D\<close>
  returns the three parallel arrays of the x, y and intensity values of the maxima, and
  \<open>upsampled_correlation\<close> the refined position.
\<close>

record utils =
  get_maxima_2D :: "real ndarray2 \<Rightarrow> real \<Rightarrow> int \<Rightarrow> real \<Rightarrow> real \<Rightarrow> int \<Rightarrow> bool
                      \<Rightarrow> real list \<times> real list \<times> real list"
  upsampled_correlation :: "complex ndarray2 \<Rightarrow> int \<Rightarrow> real \<times> real \<Rightarrow> real \<times> real"

text \<open>The arrays that \<open>get_maxima_2D\<close> returns are parallel: they have one length.\<close>

definition parallel_maxima :: "utils \<Rightarrow> bool" where
  "parallel_maxima u =
     (\<forall>cc sigma edgeBoundary minRelativeIntensity minSpacing maxNumPeaks subpixel.
        case get_maxima_2D u cc sigma edgeBoundary minRelativeIntensity minSpacing maxNumPeaks subpixel of
          (maxima_x, maxima_y, maxima_int) \<Rightarrow>
            length maxima_x = length maxima_y \<and> length maxima_y = length maxima_int)"

text \<open>
  Modelled from the spec: \<open>get_cross_correlation_fk\<close>, which is not among the sources:
  with \<open>M = FFT(pattern) * probe_kernel_FT\<close>, where the kernel is the conjugated
  transform of the probe, the result is \<open>|M|^corrPower * exp(i angle(M))\<close>,
  inverse-transformed, of which the real part is taken.
\<close>

definition hybrid_correlation :: "real ndarray2 \<Rightarrow> complex ndarray2 \<Rightarrow> real \<Rightarrow> error + complex ndarray2" where
  "hybrid_correlation pattern probe_kernel_FT corrPower =
     bind_err (fft2 (as_complex pattern))
       (\<lambda>F. bind_err (np_multiply F probe_kernel_FT)
          (\<lambda>M. ifft2 (hybrid_spectrum M corrPower)))"

definition get_cross_correlation_fk :: "real ndarray2 \<Rightarrow> complex ndarray2 \<Rightarrow> real \<Rightarrow> error + real ndarray2" where
  "get_cross_correlation_fk ar fourierkernel corrPower =
     bind_err (hybrid_correlation ar fourierkernel corrPower) (\<lambda>c. Inr (np_real c))"

text \<open>
  Modelled from the spec: \<open>PointList.add_tuple_of_nparrays\<close>, which is not among the
  sources: the rows given as parallel arrays are appended; a column count that is not
  that of the schema fails with SchemaMismatch, and parallel arrays of different lengths
  with ShapeMismatch.
\<close>

definition add_tuple_of_nparrays :: "pointlist \<Rightarrow> real list \<times> real list \<times> real list \<Rightarrow> error + pointlist" where
  "add_tuple_of_nparrays pl cols =
     (case cols of (xs, ys, is) \<Rightarrow>
        if length (coordinates pl) \<noteq> 3 then Inl SchemaMismatch
        else if length xs \<noteq> length ys \<or> length ys \<noteq> length is then Inl ShapeMismatch
        else Inr (pl\<lparr>data := data pl @
                      map (\<lambda>(x, y, i). \<lparr>qx = x, qy = y, intensity = i\<rparr>) (zip xs (zip ys is))\<rparr>))"

subsection \<open>\<open>find_Bragg_disks_single_DP_FK\<close>\<close>

text \<open>\<open>np.round\<close> rounds to the nearest integer, and a half to the even neighbour.\<close>

definition np_round :: "real \<Rightarrow> real" where
  "np_round x =
     (let f = \<lfloor>x\<rfloor>; d = x - real_of_int f
      in real_of_int (if d < 1 / 2 then f else if 1 / 2 < d then f + 1
                      else if even f then f else f + 1))"

text \<open>
  Lines 80 to 82, 89 to 91 and 99 to 103: the correlation surface \<open>cc\<close> of each of the
  three branches, clamped with \<open>np.maximum(cc, 0)\<close>, and in the multicorr branch the
  complex array \<open>ccc\<close> as well.
\<close>

definition correlation_surface ::
  "string \<Rightarrow> real ndarray2 \<Rightarrow> complex ndarray2 \<Rightarrow> real \<Rightarrow> error + real ndarray2 \<times> complex ndarray2 option" where
  "correlation_surface subpixel DP probe_kernel_FT corrPower =
     (if subpixel = ''none'' then
        bind_err (get_cross_correlation_fk DP probe_kernel_FT corrPower)
          (\<lambda>cc. Inr (np_maximum0 cc, None))
      else if subpixel = ''poly'' then
        bind_err (get_cross_correlation_fk DP probe_kernel_FT corrPower)
          (\<lambda>cc. Inr (np_maximum0 cc, None))
      else
        bind_err (fft2 (as_complex DP))
          (\<lambda>F. bind_err (np_multiply F probe_kernel_FT)
             (\<lambda>m. let ccc = hybrid_spectrum m corrPower
                  in bind_err (ifft2 ccc) (\<lambda>c. Inr (np_maximum0 (np_real c), Some ccc)))))"

text \<open>
  Lines 114 to 121 for one peak: the position is rounded to half a pixel, losing
  precision, and refined by \<open>upsampled_correlation\<close>.
\<close>

definition refine_position :: "utils \<Rightarrow> complex ndarray2 \<Rightarrow> int \<Rightarrow> real \<Rightarrow> real \<Rightarrow> real \<times> real" where
  "refine_position u ccc upsample_factor x y =
     (let xyShift = (x, y);
          xyShift = (np_round (fst xyShift * 2) / 2, np_round (snd xyShift * 2) / 2)
      in upsampled_correlation u ccc upsample_factor xyShift)"

text \<open>
  The body of the loop of lines 113 to 123 for one peak: the refined position is written
  to \<open>maxima_x\<close> and \<open>maxima_y\<close>; \<open>maxima_int\<close> is not touched.
\<close>

definition refine_peak ::
  "utils \<Rightarrow> complex ndarray2 \<Rightarrow> int \<Rightarrow> nat \<Rightarrow> real list \<times> real list \<Rightarrow> error + real list \<times> real list" where
  "refine_peak u ccc upsample_factor ipeak maxima =
     (case maxima of (maxima_x, maxima_y) \<Rightarrow>
        if length maxima_y \<le> ipeak then Inl IndexError
        else
          let subShift = refine_position u ccc upsample_factor (maxima_x ! ipeak) (maxima_y ! ipeak)
          in Inr (maxima_x[ipeak := fst subShift], maxima_y[ipeak := snd subShift]))"

text \<open>
  Lines 83 to 88, 92 to 97 and 105 to 123: the maxima of the correlation surface; only the
  multicorr branch refines them, with the array \<open>ccc\<close> that this branch has computed
  (the case of a surface without \<open>ccc\<close> does not arise in this branch).
\<close>

definition find_maxima ::
  "utils \<Rightarrow> string \<Rightarrow> real ndarray2 \<times> complex ndarray2 option \<Rightarrow> real \<Rightarrow> int \<Rightarrow> real \<Rightarrow> real \<Rightarrow> int \<Rightarrow> int
     \<Rightarrow> error + real list \<times> real list \<times> real list" where
  "find_maxima u subpixel surface sigma edgeBoundary minRelativeIntensity minPeakSpacing maxNumPeaks
       upsample_factor =
     (case surface of (cc, ccc_opt) \<Rightarrow>
        if subpixel = ''none'' then
          Inr (get_maxima_2D u cc sigma edgeBoundary minRelativeIntensity minPeakSpacing maxNumPeaks False)
        else if subpixel = ''poly'' then
          Inr (get_maxima_2D u cc sigma edgeBoundary minRelativeIntensity minPeakSpacing maxNumPeaks True)
          else
          (case get_maxima_2D u cc sigma edgeBoundary minRelativeIntensity minPeakSpacing maxNumPeaks True of
             (maxima_x, maxima_y, maxima_int) \<Rightarrow>
               (case ccc_opt of
                  None \<Rightarrow> Inl ValueError
                | Some ccc \<Rightarrow>
                    bind_err (for_each (refine_peak u ccc upsample_factor) [0..<length maxima_x]
                                (maxima_x, maxima_y))
                      (\<lambda>refined. Inr (fst refined, snd refined, maxima_int)))))"

text \<open>
  The function returns the peaks, and with \<open>return_cc\<close> the smoothed surface as well. A
  peak list that the caller supplies is mutated in place: the first component of the
  result is that list as it is after the call (\<open>None\<close> when none was supplied), also when
  the call raises.
\<close>

definition find_Bragg_disks_single_DP_FK ::
  "utils \<Rightarrow> real ndarray2 \<Rightarrow> complex ndarray2 \<Rightarrow> real \<Rightarrow> real \<Rightarrow> int \<Rightarrow> real \<Rightarrow> real \<Rightarrow> int \<Rightarrow> string \<Rightarrow> int
     \<Rightarrow> bool \<Rightarrow> pointlist option
     \<Rightarrow> pointlist option \<times> (error + pointlist \<times> real ndarray2 option)" where
  "find_Bragg_disks_single_DP_FK u DP probe_kernel_FT corrPower sigma edgeBoundary
       minRelativeIntensity minPeakSpacing maxNumPeaks subpixel upsample_factor return_cc peaks =
     (if subpixel \<notin> set [''none'', ''poly'', ''multicorr''] then (peaks, Inl InvalidConfiguration)
      else
        case correlation_surface subpixel DP probe_kernel_FT corrPower of
          Inl e \<Rightarrow> (peaks, Inl e)
        | Inr surface \<Rightarrow>
            (case find_maxima u subpixel surface sigma edgeBoundary minRelativeIntensity
                    minPeakSpacing maxNumPeaks upsample_factor of
               Inl e \<Rightarrow> (peaks, Inl e)
             | Inr maxima \<Rightarrow>
                 (case add_tuple_of_nparrays
                         (case peaks of None \<Rightarrow> PointList coords | Some p \<Rightarrow> p) maxima of
                    Inl e \<Rightarrow> (peaks, Inl e)
                  | Inr pl \<Rightarrow>
                      (map_option (\<lambda>_. pl) peaks,
                       Inr (pl, if return_cc then Some (gaussian_filter (fst surface) sigma)
                                else None)))))"

subsection \<open>\<open>find_Bragg_disks\<close>\<close>

text \<open>
  The datacube: the shape of the scan and the diffraction pattern \<open>data[Rx,Ry,:,:]\<close> at
  each scan position.
\<close>

record datacube =
  R_Nx :: nat
  R_Ny :: nat
  dc_data :: "nat \<Rightarrow> nat \<Rightarrow> real ndarray2"

text \<open>The body of the loops of lines 304 to 319 at one scan position.\<close>

definition find_Bragg_disks_at ::
  "utils \<Rightarrow> datacube \<Rightarrow> complex ndarray2 \<Rightarrow> real \<Rightarrow> real \<Rightarrow> int \<Rightarrow> real \<Rightarrow> real \<Rightarrow> int \<Rightarrow> string \<Rightarrow> int
     \<Rightarrow> nat \<times> nat \<Rightarrow> pointlistarray \<Rightarrow> error + pointlistarray" where
  "find_Bragg_disks_at u dc probe_kernel_FT corrPower sigma edgeBoundary minRelativeIntensity
       minPeakSpacing maxNumPeaks subpixel upsample_factor pos peaks =
     bind_err (get_pointlist peaks (fst pos) (snd pos))
       (\<lambda>cell.
          case find_Bragg_disks_single_DP_FK u (dc_data dc (fst pos) (snd pos)) probe_kernel_FT
                 corrPower sigma edgeBoundary minRelativeIntensity minPeakSpacing maxNumPeaks
                 subpixel upsample_factor False (Some cell) of
            (_, Inl e) \<Rightarrow> Inl e
          | (None, Inr _) \<Rightarrow> Inr peaks
          | (Some cell', Inr _) \<Rightarrow> Inr (store_pointlist peaks (fst pos) (snd pos) cell'))"

definition find_Bragg_disks ::
  "utils \<Rightarrow> datacube \<Rightarrow> real ndarray2 \<Rightarrow> real \<Rightarrow> real \<Rightarrow> int \<Rightarrow> real \<Rightarrow> real \<Rightarrow> int \<Rightarrow> string \<Rightarrow> int
     \<Rightarrow> error + pointlistarray" where
  "find_Bragg_disks u dc probe corrPower sigma edgeBoundary minRelativeIntensity minPeakSpacing
       maxNumPeaks subpixel upsample_factor =
     (let peaks = PointListArray coords (R_Nx dc, R_Ny dc)
      in bind_err (fft2 (as_complex probe))
           (\<lambda>F. for_each
                   (find_Bragg_disks_at u dc (np_conj F) corrPower sigma edgeBoundary
                      minRelativeIntensity minPeakSpacing maxNumPeaks subpixel upsample_factor)
                   (scan_positions (R_Nx dc) (R_Ny dc)) peaks))"

subsection \<open>Concrete inputs\<close>

text \<open>
  A stand-in for the helper functions, used to run the model: it reports the pixel at the
  origin as the only maximum and refines no position.
\<close>

definition origin_utils :: utils where
  "origin_utils =
     \<lparr>get_maxima_2D = (\<lambda>cc sigma edgeBoundary minRelativeIntensity minSpacing maxNumPeaks subpixel.
         ([0], [0], [arr_at cc 0 0])),
      upsampled_correlation = (\<lambda>ccc upsample_factor xyShift. xyShift)\<rparr>"

text \<open>A pattern of one row and two pixels, and the transformed kernel of a point probe.\<close>

definition spike_pattern :: "real ndarray2" where
  "spike_pattern = \<lparr>arr_shape = (1, 2), arr_at = (\<lambda>i j. if j = 0 then 1 else 0)\<rparr>"

definition point_kernel_FT :: "complex ndarray2" where
  "point_kernel_FT = \<lparr>arr_shape = (1, 2), arr_at = (\<lambda>i j. 1)\<rparr>"

text \<open>The surface of a correlation that returned, and the surface that a call returned.\<close>

definition surface_of :: "error + real ndarray2 \<times> complex ndarray2 option \<Rightarrow> real ndarray2 option" where
  "surface_of r = (case r of Inl e \<Rightarrow> None | Inr (cc, ccc_opt) \<Rightarrow> Some cc)"

definition returned_cc ::
  "pointlist option \<times> (error + pointlist \<times> real ndarray2 option) \<Rightarrow> real ndarray2 option" where
  "returned_cc r = (case snd r of Inl e \<Rightarrow> None | Inr (pl, cc_opt) \<Rightarrow> cc_opt)"

text \<open>A datacube of two by three scan positions with the same pattern at each.\<close>

definition spike_cube :: datacube where
  "spike_cube = \<lparr>R_Nx = 2, R_Ny = 3, dc_data = (\<lambda>Rx Ry. spike_pattern)\<rparr>"

text \<open>Cells used to run the post-processor.\<close>

definition negative_cell :: pointlist where
  "negative_cell = \<lparr>coordinates = coords,
     data = [\<lparr>qx = 0, qy = 0, intensity = - 1\<rparr>, \<lparr>qx = 9, qy = 9, intensity = - 2\<rparr>]\<rparr>"

definition bright_peak :: peak where
  "bright_peak = \<lparr>qx = 0, qy = 0, intensity = 10\<rparr>"

definition near_peak :: peak where
  "near_peak = \<lparr>qx = 3, qy = 0, intensity = 5\<rparr>"

definition far_peak :: peak where
  "far_peak = \<lparr>qx = 8, qy = 0, intensity = 5\<rparr>"

definition close_pair :: pointlist where
  "close_pair = \<lparr>coordinates = coords, data = [bright_peak, near_peak]\<rparr>"

definition example_cell :: pointlist where
  "example_cell = \<lparr>coordinates = coords,
     data = [\<lparr>qx = 1, qy = 1, intensity = 100\<rparr>, \<lparr>qx = 2, qy = 2, intensity = 40\<rparr>,
             \<lparr>qx = 3, qy = 3, intensity = 3\<rparr>]\<rparr>"

section \<open>Properties\<close>

lemma bind_err_Inr [simp]: "bind_err (Inr x) f = f x"
  by (simp add: bind_err_def)

lemma bind_err_Inl [simp]: "bind_err (Inl e) f = Inl e"
  by (simp add: bind_err_def)

lemma removed_by_predicate:
  "map fst (filter (\<lambda>(r, d). \<not> d) (zip rows (map P rows))) = filter (\<lambda>r. \<not> P r) rows"
  by (induction rows) auto

lemma remove_points_predicate:
  "remove_points (map P (data pl)) pl = Inr (pl\<lparr>data := filter (\<lambda>r. \<not> P r) (data pl)\<rparr>)"
  by (simp add: remove_points_def removed_by_predicate)

lemma removed_by_mask_nths:
  "length m = length rows \<Longrightarrow>
   map fst (filter (\<lambda>(r, d). \<not> d) (zip rows m)) = nths rows {j. \<not> m ! j}"
proof (induction rows arbitrary: m)
  case Nil
  then show ?case by simp
next
  case (Cons r rows)
  then obtain d ds where m: "m = d # ds" and len: "length ds = length rows"
    by (cases m) auto
  show ?case
    using Cons.IH [OF len] by (simp add: m nths_Cons)
qed

lemma nths_agree:
  "(\<And>j. j < length xs \<Longrightarrow> (j \<in> A) = (j \<in> B)) \<Longrightarrow> nths xs A = nths xs B"
  unfolding nths_def
  by (rule arg_cong [where f = "map fst"], rule filter_cong) (auto simp: set_zip)

lemma remove_points_mask:
  "length m = length (data pl) \<Longrightarrow>
   remove_points m pl = Inr (pl\<lparr>data := nths (data pl) {j. \<not> m ! j}\<rparr>)"
  by (simp add: remove_points_def removed_by_mask_nths)

lemma py_max_nonempty:
  assumes "xs \<noteq> []"
  shows "py_max xs = Inr (Max (set xs))"
proof -
  obtain x rest where xs: "xs = x # rest"
    using assms by (cases xs) auto
  show ?thesis
    using Max.set_eq_fold [of x rest] by (simp add: xs py_max_def)
qed

lemma py_max_empty: "py_max [] = Inl ValueError"
  by (simp add: py_max_def)

lemma ratio_below_product:
  "0 \<le> mx \<Longrightarrow> ratio_below x mx t = (x < t * mx)"
  by (cases "mx = 0") (simp_all add: ratio_below_def pos_divide_less_eq)

lemma intensity_step_nonempty:
  "data pl \<noteq> [] \<Longrightarrow>
   intensity_step (Some t) pl =
     Inr (pl\<lparr>data := filter (\<lambda>r. \<not> ratio_below (intensity r) (Max (set (map intensity (data pl)))) t) (data pl)\<rparr>)"
  by (simp add: intensity_step_def py_max_nonempty remove_points_predicate)

lemma intensity_step_empty:
  "data pl = [] \<Longrightarrow> intensity_step (Some t) pl = Inl ValueError"
  by (simp add: intensity_step_def py_max_empty)

lemma data_pl_sort [simp]:
  "data (pl_sort intensity Descending pl) = sort_key (\<lambda>r. - intensity r) (data pl)"
  by (simp add: pl_sort_def)

lemma coordinates_pl_sort [simp]:
  "coordinates (pl_sort column ord pl) = coordinates pl"
  by (cases ord) (simp_all add: pl_sort_def)

lemma length_sweep_body [simp]:
  "length m = length rows \<Longrightarrow> length (sweep_body r2 rows i m) = length rows"
  by (simp add: sweep_body_def Let_def)

lemma sweep_body_nth:
  assumes "length m = length rows" and "j < length rows"
  shows "sweep_body r2 rows i m ! j =
           (m ! j \<or> (\<not> m ! i \<and> i < j \<and> dist2 (rows ! j) (rows ! i) < r2))"
  using assms by (auto simp: sweep_body_def Let_def nth_enumerate_eq)

lemma sweep_snoc: "sweep r2 rows (is @ [i]) = sweep_body r2 rows i (sweep r2 rows is)"
  by (simp add: sweep_def)

lemma length_sweep [simp]: "length (sweep r2 rows is) = length rows"
  by (induction "is" rule: rev_induct) (simp_all add: sweep_def)

lemma sweep_Suc:
  "sweep r2 rows [0..<Suc k] = sweep_body r2 rows k (sweep r2 rows [0..<k])"
  by (simp add: sweep_snoc)

lemma sweep_Suc_nth:
  assumes "j < length rows"
  shows "sweep r2 rows [0..<Suc k] ! j =
           (sweep r2 rows [0..<k] ! j \<or>
            (\<not> sweep r2 rows [0..<k] ! k \<and> k < j \<and> dist2 (rows ! j) (rows ! k) < r2))"
  unfolding sweep_Suc using assms by (simp add: sweep_body_nth)

lemma sweep_settled_step:
  "j \<le> k \<Longrightarrow> j < length rows \<Longrightarrow> sweep r2 rows [0..<Suc k] ! j = sweep r2 rows [0..<k] ! j"
  by (simp add: sweep_Suc_nth del: upt_Suc)

lemma sweep_settled:
  "j \<le> i \<Longrightarrow> i < k \<Longrightarrow> j < length rows \<Longrightarrow>
   sweep r2 rows [0..<k] ! j = sweep r2 rows [0..<Suc i] ! j"
proof (induction k)
  case 0
  then show ?case by simp
next
  case (Suc k)
  show ?case
  proof (cases "i = k")
    case True
    then show ?thesis by simp
  next
    case False
    with Suc.prems have "i < k" by simp
    with Suc have "sweep r2 rows [0..<k] ! j = sweep r2 rows [0..<Suc i] ! j" by simp
    moreover have "sweep r2 rows [0..<Suc k] ! j = sweep r2 rows [0..<k] ! j"
      using Suc.prems \<open>i < k\<close> by (intro sweep_settled_step) simp_all
    ultimately show ?thesis by simp
  qed
qed

lemma sweep_initial: "j < length rows \<Longrightarrow> \<not> sweep r2 rows [] ! j"
  by (simp add: sweep_def)

lemma sweep_invariant:
  "j < length rows \<Longrightarrow>
   sweep r2 rows [0..<k] ! j =
     (\<exists>i<k. i < j \<and> \<not> sweep r2 rows [0..<k] ! i \<and> dist2 (rows ! j) (rows ! i) < r2)"
proof (induction k)
  case 0
  then show ?case by (simp add: sweep_initial)
next
  case (Suc k)
  let ?m = "sweep r2 rows [0..<k]" and ?m' = "sweep r2 rows [0..<Suc k]"
  have keep: "?m' ! i = ?m ! i" if "i \<le> k" "i < j" for i
    using that Suc.prems by (intro sweep_settled_step) simp_all
  have "?m' ! j = (?m ! j \<or> (\<not> ?m ! k \<and> k < j \<and> dist2 (rows ! j) (rows ! k) < r2))"
    using Suc.prems by (rule sweep_Suc_nth)
  also have "\<dots> = ((\<exists>i<k. i < j \<and> \<not> ?m ! i \<and> dist2 (rows ! j) (rows ! i) < r2) \<or>
                   (\<not> ?m ! k \<and> k < j \<and> dist2 (rows ! j) (rows ! k) < r2))"
    using Suc.IH [OF Suc.prems] by simp
  also have "\<dots> = (\<exists>i<Suc k. i < j \<and> \<not> ?m ! i \<and> dist2 (rows ! j) (rows ! i) < r2)"
    by (auto simp: less_Suc_eq)
  also have "\<dots> = (\<exists>i<Suc k. i < j \<and> \<not> ?m' ! i \<and> dist2 (rows ! j) (rows ! i) < r2)"
  proof -
    have "(i < j \<and> \<not> ?m ! i \<and> dist2 (rows ! j) (rows ! i) < r2) =
          (i < j \<and> \<not> ?m' ! i \<and> dist2 (rows ! j) (rows ! i) < r2)" if "i < Suc k" for i
      using keep [of i] that by auto
    then show ?thesis by blast
  qed
  finally show ?case .
qed

lemma spacing_deletemask_greedy:
  assumes "j < length rows"
  shows "spacing_deletemask r2 rows ! j =
           (\<exists>i<j. \<not> spacing_deletemask r2 rows ! i \<and> dist2 (rows ! j) (rows ! i) < r2)"
  unfolding spacing_deletemask_def
  using sweep_invariant [OF assms, of r2 "length rows"] assms by auto

lemma sorted_wrt_nths_keep: "sorted_wrt P xs \<Longrightarrow> sorted_wrt P (nths xs A)"
proof (induction xs arbitrary: A)
  case Nil
  then show ?case by simp
next
  case (Cons x xs)
  then show ?case
    by (auto simp: nths_Cons dest: in_set_nthsD)
qed

lemma sorted_descending_sort:
  "sorted_wrt (\<lambda>a b. intensity b \<le> intensity a) (sort_key (\<lambda>r. - intensity r) rows)"
  using sorted_sort_key [of "\<lambda>r. - intensity r" rows] by (simp add: sorted_map)

lemma dist2_nonneg: "0 \<le> dist2 r p"
  by (simp add: dist2_def)

lemma dist2_commute: "dist2 r p = dist2 p r"
  by (simp add: dist2_def power2_commute)

lemma spacing_deletemask_two: "spacing_deletemask r2 [p, q] = [False, dist2 q p < r2]"
  by (simp add: spacing_deletemask_def sweep_def sweep_body_def)

lemma length_spacing_deletemask [simp]: "length (spacing_deletemask r2 rows) = length rows"
  by (simp add: spacing_deletemask_def)

lemma spacing_step_enabled:
  "spacing_step minSp (Some n) pl =
     Inr (pl\<lparr>data := nths (data pl) {j. \<not> spacing_deletemask (spacing_squared minSp) (data pl) ! j}\<rparr>)"
  by (simp add: spacing_step_def remove_points_mask)

lemma spacing_step_disabled: "spacing_step minSp None pl = Inr pl"
  by (simp add: spacing_step_def)

lemma below_spacing: "sqrt (dist2 q p) < s \<Longrightarrow> dist2 q p < s\<^sup>2"
  using dist2_nonneg [of q p] real_sqrt_less_iff [of "dist2 q p" "s\<^sup>2"]
  by (smt (verit) real_sqrt_abs real_sqrt_ge_zero)

lemma above_spacing: "0 \<le> s \<Longrightarrow> s < sqrt (dist2 q p) \<Longrightarrow> \<not> dist2 q p < s\<^sup>2"
  using real_sqrt_less_iff [of "dist2 q p" "s\<^sup>2"] by simp

lemma sort_two_descending:
  "intensity p = 10 \<Longrightarrow> intensity q = 5 \<Longrightarrow> sort_key (\<lambda>r. - intensity r) [q, p] = [p, q]"
  by simp

lemma two_rows_cases: "nths [p, q] {j. \<not> [False, c] ! j} = (if c then [p] else [p, q])"
  by (simp add: nths_Cons)

text \<open>
  Claim C3. In the sweep of the spacing filter, row \<open>j\<close> is marked for deletion exactly
  when some earlier row \<open>i < j\<close> that is itself not marked lies at a squared distance
  below the squared spacing from it. Once row \<open>i\<close> has been processed, the marks of the
  rows up to \<open>i\<close> do not change any more, so a surviving row is never deleted by a later
  comparison and no row deletes itself. The step removes exactly the marked rows. For two
  peaks of intensities 10 and 5 at a distance below the spacing only the peak of intensity
  10 survives, and at a distance above the spacing both survive.
\<close>

theorem spacing_sweep_greedy:
  "(\<forall>j<length rows. spacing_deletemask r2 rows ! j =
       (\<exists>i<j. \<not> spacing_deletemask r2 rows ! i \<and> dist2 (rows ! j) (rows ! i) < r2))
   \<and> (\<forall>i k j. j \<le> i \<and> i < k \<and> k \<le> length rows \<longrightarrow>
          sweep r2 rows [0..<k] ! j = sweep r2 rows [0..<Suc i] ! j)
   \<and> spacing_step minPeakSpacing (Some n) pl =
       Inr (pl\<lparr>data := nths (data pl)
              {j. \<not> spacing_deletemask (spacing_squared minPeakSpacing) (data pl) ! j}\<rparr>)
   \<and> (intensity p = 10 \<and> intensity q = 5 \<and> sqrt (dist2 q p) < s \<longrightarrow>
        spacing_step (Some s) (Some n) (pl_sort intensity Descending \<lparr>coordinates = cs, data = [q, p]\<rparr>)
          = Inr \<lparr>coordinates = cs, data = [p]\<rparr>)
   \<and> (intensity p = 10 \<and> intensity q = 5 \<and> 0 \<le> s \<and> s < sqrt (dist2 q p) \<longrightarrow>
        spacing_step (Some s) (Some n) (pl_sort intensity Descending \<lparr>coordinates = cs, data = [q, p]\<rparr>)
          = Inr \<lparr>coordinates = cs, data = [p, q]\<rparr>)"
proof (intro conjI allI impI)
  fix j assume "j < length rows"
  then show "spacing_deletemask r2 rows ! j =
       (\<exists>i<j. \<not> spacing_deletemask r2 rows ! i \<and> dist2 (rows ! j) (rows ! i) < r2)"
    by (rule spacing_deletemask_greedy)
next
  fix i k j assume "j \<le> i \<and> i < k \<and> k \<le> length rows"
  then show "sweep r2 rows [0..<k] ! j = sweep r2 rows [0..<Suc i] ! j"
    by (intro sweep_settled) simp_all
next
  show "spacing_step minPeakSpacing (Some n) pl =
       Inr (pl\<lparr>data := nths (data pl)
              {j. \<not> spacing_deletemask (spacing_squared minPeakSpacing) (data pl) ! j}\<rparr>)"
    by (rule spacing_step_enabled)
next
  assume h: "intensity p = 10 \<and> intensity q = 5 \<and> sqrt (dist2 q p) < s"
  then have "dist2 q p < s\<^sup>2" by (simp add: below_spacing)
  with h show "spacing_step (Some s) (Some n) (pl_sort intensity Descending \<lparr>coordinates = cs, data = [q, p]\<rparr>)
          = Inr \<lparr>coordinates = cs, data = [p]\<rparr>"
    by (simp add: spacing_step_enabled pl_sort_def spacing_deletemask_two spacing_squared_def
        two_rows_cases)
next
  assume h: "intensity p = 10 \<and> intensity q = 5 \<and> 0 \<le> s \<and> s < sqrt (dist2 q p)"
  then have "\<not> dist2 q p < s\<^sup>2" by (simp add: above_spacing)
  with h show "spacing_step (Some s) (Some n) (pl_sort intensity Descending \<lparr>coordinates = cs, data = [q, p]\<rparr>)
          = Inr \<lparr>coordinates = cs, data = [p, q]\<rparr>"
    by (simp add: spacing_step_enabled pl_sort_def spacing_deletemask_two spacing_squared_def
        two_rows_cases)
qed

lemma threshold_without_maxNumPeaks:
  "threshold_pointlist minRel minSp None pl = intensity_step minRel (pl_sort intensity Descending pl)"
  by (cases "intensity_step minRel (pl_sort intensity Descending pl)")
     (simp_all add: threshold_pointlist_def filtered_pointlist_def spacing_step_def count_step_def)

text \<open>
  In a cell of negative intensities the code keeps every row, since the ratios to the
  maximum are at least one, while the rows below the threshold times the maximum are all
  of them; and on an empty cell the step raises.
\<close>

theorem intensity_threshold_not_product:
  "intensity_step (Some (1 / 2)) (pl_sort intensity Descending negative_cell) = Inr negative_cell
   \<and> filter (\<lambda>r. \<not> intensity r < 1 / 2 * Max (set (map intensity (data negative_cell))))
        (data (pl_sort intensity Descending negative_cell)) = []
   \<and> intensity_step (Some (1 / 2)) (pl_sort intensity Descending (PointList coords)) = Inl ValueError"
  by (simp add: negative_cell_def pl_sort_def intensity_step_def py_max_def remove_points_def
      ratio_below_def PointList_def)

text \<open>
  Claim C4, as amended. In a cell that is not empty and whose maximum intensity is not
  negative, the intensity threshold removes exactly the rows whose intensity is strictly
  below \<open>minRelativeIntensity\<close> times the maximum intensity of the cell, and all other
  rows remain. With the intensities 100, 40 and 3 and the threshold 0.05 only the row of
  intensity 3 is removed. With \<open>maxNumPeaks\<close> disabled this step is all that
  \<open>threshold_Braggpeaks\<close> does to a sorted cell.
\<close>

theorem intensity_threshold_removes_below:
  "(data pl \<noteq> [] \<and> 0 \<le> Max (set (map intensity (data pl))) \<longrightarrow>
      intensity_step (Some t) (pl_sort intensity Descending pl) =
        Inr ((pl_sort intensity Descending pl)
              \<lparr>data := filter (\<lambda>r. \<not> intensity r < t * Max (set (map intensity (data pl))))
                         (data (pl_sort intensity Descending pl))\<rparr>))
   \<and> (map intensity (data pl) = [100, 40, 3] \<longrightarrow>
        intensity_step (Some (5 / 100)) (pl_sort intensity Descending pl) =
          Inr (pl\<lparr>data := take 2 (data pl)\<rparr>))
   \<and> threshold_pointlist (Some t) minPeakSpacing None pl =
        intensity_step (Some t) (pl_sort intensity Descending pl)"
proof (intro conjI impI)
  assume h: "data pl \<noteq> [] \<and> 0 \<le> Max (set (map intensity (data pl)))"
  let ?s = "pl_sort intensity Descending pl"
  have ne: "data ?s \<noteq> []"
    using h by (simp add: pl_sort_def) (metis length_0_conv length_sort)
  have mx: "Max (set (map intensity (data ?s))) = Max (set (map intensity (data pl)))"
    by (simp add: pl_sort_def)
  show "intensity_step (Some t) ?s =
        Inr (?s\<lparr>data := filter (\<lambda>r. \<not> intensity r < t * Max (set (map intensity (data pl))))
                         (data ?s)\<rparr>)"
    using h by (simp only: intensity_step_nonempty [OF ne] mx ratio_below_product)
next
  assume h: "map intensity (data pl) = [100, 40, 3]"
  then obtain a b c where rows: "data pl = [a, b, c]"
    and ints: "intensity a = 100" "intensity b = 40" "intensity c = 3"
    by (auto simp: map_eq_Cons_conv)
  have sorted: "pl_sort intensity Descending pl = pl"
    by (simp add: pl_sort_def rows ints)
  show "intensity_step (Some (5 / 100)) (pl_sort intensity Descending pl) =
          Inr (pl\<lparr>data := take 2 (data pl)\<rparr>)"
    unfolding sorted
    by (simp add: intensity_step_def py_max_def remove_points_def ratio_below_def rows ints)
next
  show "threshold_pointlist (Some t) minPeakSpacing None pl =
        intensity_step (Some t) (pl_sort intensity Descending pl)"
    by (rule threshold_without_maxNumPeaks)
qed

lemma intensity_step_sorted:
  "intensity_step minRel pl = Inr pl' \<Longrightarrow>
   sorted_wrt (\<lambda>a b. intensity b \<le> intensity a) (data pl) \<Longrightarrow>
   sorted_wrt (\<lambda>a b. intensity b \<le> intensity a) (data pl')"
proof (cases minRel)
  case None
  assume "intensity_step minRel pl = Inr pl'" "sorted_wrt (\<lambda>a b. intensity b \<le> intensity a) (data pl)"
  with None show ?thesis by (simp add: intensity_step_def)
next
  case (Some t)
  assume r: "intensity_step minRel pl = Inr pl'"
    and s: "sorted_wrt (\<lambda>a b. intensity b \<le> intensity a) (data pl)"
  have "data pl \<noteq> []"
    using r Some by (auto simp: intensity_step_empty)
  from intensity_step_nonempty [OF this, of t] r Some
  show ?thesis using s by (auto simp: sorted_wrt_filter)
qed

lemma intensity_step_returns:
  "minRel = None \<or> data pl \<noteq> [] \<Longrightarrow> \<exists>pl'. intensity_step minRel pl = Inr pl'"
proof (cases minRel)
  case None
  then show ?thesis by (simp add: intensity_step_def)
next
  case (Some t)
  assume "minRel = None \<or> data pl \<noteq> []"
  with Some have "data pl \<noteq> []" by simp
  then show ?thesis
    by (simp add: Some intensity_step_nonempty)
qed

lemma intensity_step_error:
  "intensity_step minRel pl = Inl e \<Longrightarrow> e = ValueError \<and> minRel \<noteq> None \<and> data pl = []"
proof (cases minRel)
  case None
  assume "intensity_step minRel pl = Inl e"
  with None show ?thesis by (simp add: intensity_step_def)
next
  case (Some t)
  assume r: "intensity_step minRel pl = Inl e"
  show ?thesis
  proof (cases "data pl = []")
    case True
    with r Some show ?thesis by (simp add: intensity_step_empty)
  next
    case False
    with r Some show ?thesis by (simp add: intensity_step_nonempty)
  qed
qed

lemma spacing_step_returns:
  "\<exists>pl'. spacing_step minSp maxN pl = Inr pl' \<and>
     (sorted_wrt (\<lambda>a b. intensity b \<le> intensity a) (data pl) \<longrightarrow>
      sorted_wrt (\<lambda>a b. intensity b \<le> intensity a) (data pl'))"
  by (cases maxN) (simp_all add: spacing_step_disabled spacing_step_enabled sorted_wrt_nths_keep)

lemma slice_from_mask_take:
  assumes "0 \<le> n" and "n < int (length (data pl))"
  shows "remove_points (slice_from_mask n (length (data pl))) pl = Inr (pl\<lparr>data := take (nat n) (data pl)\<rparr>)"
proof -
  have len: "length (slice_from_mask n (length (data pl))) = length (data pl)"
    by (simp add: slice_from_mask_def Let_def)
  have "nths (data pl) {j. \<not> slice_from_mask n (length (data pl)) ! j} = nths (data pl) {..<nat n}"
    using assms by (intro nths_agree) (auto simp: slice_from_mask_def Let_def)
  then show ?thesis
    by (simp add: remove_points_mask [OF len])
qed

lemma count_step_returns:
  "0 \<le> n \<Longrightarrow>
   count_step (Some n) pl =
     Inr (if n < int (length (data pl)) then pl\<lparr>data := take (nat n) (data pl)\<rparr> else pl)"
  by (simp add: count_step_def slice_from_mask_take)

lemma count_step_total: "\<exists>pl'. count_step maxN pl = Inr pl'"
proof (cases maxN)
  case None
  then show ?thesis by (simp add: count_step_def)
next
  case (Some n)
  have "length (slice_from_mask n (length (data pl))) = length (data pl)"
    by (simp add: slice_from_mask_def Let_def)
  then show ?thesis
    by (simp add: Some count_step_def remove_points_mask)
qed

lemma filtered_pointlist_returns:
  assumes "minRel = None \<or> data pl \<noteq> []"
  shows "\<exists>pl3. filtered_pointlist minRel minSp maxN pl = Inr pl3 \<and>
           sorted_wrt (\<lambda>a b. intensity b \<le> intensity a) (data pl3)"
proof -
  let ?s = "pl_sort intensity Descending pl"
  have "minRel = None \<or> data ?s \<noteq> []"
    using assms by (auto simp: pl_sort_def) (metis length_0_conv length_sort)
  then obtain pl2 where pl2: "intensity_step minRel ?s = Inr pl2"
    using intensity_step_returns by blast
  have "sorted_wrt (\<lambda>a b. intensity b \<le> intensity a) (data ?s)"
    by (simp add: sorted_descending_sort)
  then have s2: "sorted_wrt (\<lambda>a b. intensity b \<le> intensity a) (data pl2)"
    using intensity_step_sorted [OF pl2] by simp
  obtain pl3 where "spacing_step minSp maxN pl2 = Inr pl3"
    and "sorted_wrt (\<lambda>a b. intensity b \<le> intensity a) (data pl3)"
    using spacing_step_returns [of minSp maxN pl2] s2 by blast
  then show ?thesis
    by (simp add: filtered_pointlist_def pl2)
qed

text \<open>
  Claim C5. With \<open>maxNumPeaks\<close> enabled, the cell after the sort, the intensity filter
  and the spacing filter is in descending order of intensity; when it has more than
  \<open>maxNumPeaks\<close> rows the result is its first \<open>maxNumPeaks\<close> rows, and otherwise it
  is left as it is. The comparison is with the number of rows that survived the filters.
\<close>

theorem maxNumPeaks_truncation:
  assumes "0 \<le> n" and "minRelativeIntensity = None \<or> data pl \<noteq> []"
  shows "\<exists>pl3. filtered_pointlist minRelativeIntensity minPeakSpacing (Some n) pl = Inr pl3
           \<and> sorted_wrt (\<lambda>a b. intensity b \<le> intensity a) (data pl3)
           \<and> threshold_pointlist minRelativeIntensity minPeakSpacing (Some n) pl =
               Inr (if n < int (length (data pl3)) then pl3\<lparr>data := take (nat n) (data pl3)\<rparr>
                    else pl3)"
proof -
  obtain pl3 where f: "filtered_pointlist minRelativeIntensity minPeakSpacing (Some n) pl = Inr pl3"
    and s: "sorted_wrt (\<lambda>a b. intensity b \<le> intensity a) (data pl3)"
    using filtered_pointlist_returns [OF assms(2)] by blast
  have "threshold_pointlist minRelativeIntensity minPeakSpacing (Some n) pl =
          Inr (if n < int (length (data pl3)) then pl3\<lparr>data := take (nat n) (data pl3)\<rparr> else pl3)"
    by (simp only: threshold_pointlist_def f bind_err_Inr count_step_returns [OF assms(1)])
  with f s show ?thesis by blast
qed

lemma pl_sort_empty: "data pl = [] \<Longrightarrow> data (pl_sort intensity Descending pl) = []"
  by (simp add: pl_sort_def)

lemma threshold_pointlist_empty:
  "data pl = [] \<Longrightarrow> threshold_pointlist (Some t) minSp maxN pl = Inl ValueError"
  by (simp add: threshold_pointlist_def filtered_pointlist_def intensity_step_empty pl_sort_empty)

lemma threshold_pointlist_error:
  assumes "threshold_pointlist minRel minSp maxN pl = Inl e"
  shows "e = ValueError"
proof (cases "intensity_step minRel (pl_sort intensity Descending pl)")
  case (Inl e')
  with assms have "e = e'"
    by (simp add: threshold_pointlist_def filtered_pointlist_def)
  with Inl intensity_step_error show ?thesis by blast
next
  case (Inr pl2)
  obtain pl3 where "spacing_step minSp maxN pl2 = Inr pl3"
    using spacing_step_returns by blast
  moreover obtain pl4 where "count_step maxN pl3 = Inr pl4"
    using count_step_total by blast
  ultimately show ?thesis
    using assms Inr by (simp add: threshold_pointlist_def filtered_pointlist_def)
qed

lemma threshold_cell_in_shape:
  assumes "fst pos < fst (pla_shape pla)" and "snd pos < snd (pla_shape pla)"
  shows "threshold_cell minRel minSp maxN pos pla =
           (case threshold_pointlist minRel minSp maxN (pla_cells pla pos) of
              Inl e \<Rightarrow> Inl e
            | Inr pl' \<Rightarrow> Inr (pla\<lparr>pla_cells := (pla_cells pla)(pos := pl')\<rparr>))"
  using assms
  by (simp add: threshold_cell_def get_pointlist_def store_pointlist_def bind_err_def)

lemma for_each_empty_cell:
  assumes "pos \<in> set ps"
    and "\<forall>p \<in> set ps. fst p < fst (pla_shape pla) \<and> snd p < snd (pla_shape pla)"
    and "data (pla_cells pla pos) = []"
  shows "for_each (threshold_cell (Some t) minSp maxN) ps pla = Inl ValueError"
  using assms
proof (induction ps arbitrary: pla)
  case Nil
  then show ?case by simp
next
  case (Cons p ps)
  have cell: "threshold_cell (Some t) minSp maxN p pla =
           (case threshold_pointlist (Some t) minSp maxN (pla_cells pla p) of
              Inl e \<Rightarrow> Inl e
            | Inr pl' \<Rightarrow> Inr (pla\<lparr>pla_cells := (pla_cells pla)(p := pl')\<rparr>))"
    using Cons.prems(2) by (intro threshold_cell_in_shape) simp_all
  show ?case
  proof (cases "threshold_pointlist (Some t) minSp maxN (pla_cells pla p)")
    case (Inl e)
    then have "e = ValueError" by (rule threshold_pointlist_error)
    with Inl cell show ?thesis by simp
  next
    case (Inr pl')
    have "p \<noteq> pos"
      using Inr Cons.prems(3) threshold_pointlist_empty [of "pla_cells pla pos" t minSp maxN]
      by auto
    with Cons.prems have "pos \<in> set ps" by simp
    let ?pla' = "pla\<lparr>pla_cells := (pla_cells pla)(p := pl')\<rparr>"
    have "for_each (threshold_cell (Some t) minSp maxN) ps ?pla' = Inl ValueError"
      using \<open>pos \<in> set ps\<close> Cons.prems \<open>p \<noteq> pos\<close> by (intro Cons.IH) simp_all
    with Inr cell show ?thesis by simp
  qed
qed

lemma set_scan_positions: "set (scan_positions nx ny) = {(Rx, Ry). Rx < nx \<and> Ry < ny}"
  by (auto simp: scan_positions_def)

text \<open>
  Claim C10. When \<open>minRelativeIntensity\<close> is enabled and a cell of the grid has no rows,
  the intensity step raises ValueError on that cell (the maximum of an empty sequence),
  and so does \<open>threshold_Braggpeaks\<close> on the grid.
\<close>

theorem threshold_Braggpeaks_empty_cell_raises:
  assumes "list_all (\<lambda>item. item \<in> set (map fst (pla_coordinates pla))) [''qx'', ''qy'', ''intensity'']"
    and "Rx < fst (pla_shape pla)" and "Ry < snd (pla_shape pla)"
    and "data (pla_cells pla (Rx, Ry)) = []"
  shows "intensity_step (Some t) (pl_sort intensity Descending (pla_cells pla (Rx, Ry))) = Inl ValueError
         \<and> threshold_Braggpeaks pla (Some t) minPeakSpacing maxNumPeaks = Inl ValueError"
proof
  show "intensity_step (Some t) (pl_sort intensity Descending (pla_cells pla (Rx, Ry))) = Inl ValueError"
    using assms(4) by (simp add: intensity_step_empty pl_sort_empty)
next
  have "for_each (threshold_cell (Some t) minPeakSpacing maxNumPeaks)
          (scan_positions (fst (pla_shape pla)) (snd (pla_shape pla))) pla = Inl ValueError"
    using assms(2-4) by (intro for_each_empty_cell [where pos = "(Rx, Ry)"])
      (auto simp: set_scan_positions)
  then show "threshold_Braggpeaks pla (Some t) minPeakSpacing maxNumPeaks = Inl ValueError"
    using assms(1) by (simp add: threshold_Braggpeaks_def)
qed

theorem threshold_Braggpeaks_empty_cell_raises_witness:
  "threshold_Braggpeaks (PointListArray coords (1, 1)) (Some (1 / 200)) (Some 60) (Some 70)
     = Inl ValueError"
  using threshold_Braggpeaks_empty_cell_raises [of "PointListArray coords (1, 1)" 0 0 "1 / 200" "Some 60" "Some 70"]
  by (simp add: PointListArray_def PointList_def coords_def)

text \<open>
  Claim C1. The spacing filter is run when \<open>maxNumPeaks\<close> is enabled, not when
  \<open>minPeakSpacing\<close> is. With \<open>maxNumPeaks = False\<close> a cell is sorted and thresholded
  by intensity only, whatever \<open>minPeakSpacing\<close> is: with \<open>minPeakSpacing = 5\<close> two
  peaks at distance 3 both survive, in a cell and in a grid of one cell. With
  \<open>maxNumPeaks = 70\<close> the weaker of the two is removed.
\<close>

theorem spacing_filter_gated_on_maxNumPeaks:
  "threshold_pointlist minRelativeIntensity minPeakSpacing None pl =
     intensity_step minRelativeIntensity (pl_sort intensity Descending pl)
   \<and> threshold_pointlist None (Some 5) None close_pair = Inr close_pair
   \<and> threshold_pointlist None (Some 5) (Some 70) close_pair = Inr (close_pair\<lparr>data := [bright_peak]\<rparr>)
   \<and> threshold_Braggpeaks (store_pointlist (PointListArray coords (1, 1)) 0 0 close_pair) None (Some 5) None
       = Inr (store_pointlist (PointListArray coords (1, 1)) 0 0 close_pair)"
proof (intro conjI)
  show "threshold_pointlist minRelativeIntensity minPeakSpacing None pl =
     intensity_step minRelativeIntensity (pl_sort intensity Descending pl)"
    by (rule threshold_without_maxNumPeaks)
next
  have sorted: "pl_sort intensity Descending close_pair = close_pair"
    by (simp add: pl_sort_def close_pair_def bright_peak_def near_peak_def)
  show 1: "threshold_pointlist None (Some 5) None close_pair = Inr close_pair"
    by (simp add: threshold_pointlist_def filtered_pointlist_def sorted intensity_step_def
        spacing_step_def count_step_def)
  have mask: "spacing_deletemask (spacing_squared (Some 5)) (data close_pair) = [False, True]"
    by (simp add: close_pair_def spacing_deletemask_two spacing_squared_def dist2_def
        bright_peak_def near_peak_def)
  show "threshold_pointlist None (Some 5) (Some 70) close_pair = Inr (close_pair\<lparr>data := [bright_peak]\<rparr>)"
    by (simp add: threshold_pointlist_def filtered_pointlist_def sorted intensity_step_def
        spacing_step_enabled mask count_step_def) (simp add: close_pair_def nths_Cons)
  show "threshold_Braggpeaks (store_pointlist (PointListArray coords (1, 1)) 0 0 close_pair) None (Some 5) None
       = Inr (store_pointlist (PointListArray coords (1, 1)) 0 0 close_pair)"
    by (simp add: threshold_Braggpeaks_def scan_positions_def threshold_cell_def get_pointlist_def
        store_pointlist_def PointListArray_def coords_def 1)
qed

theorem spacing_sweep_greedy_witness:
  "spacing_deletemask 25 [bright_peak, near_peak] ! 1
   \<and> \<not> spacing_deletemask 25 [bright_peak, far_peak] ! 1
   \<and> spacing_step (Some 5) (Some 70)
        (pl_sort intensity Descending \<lparr>coordinates = coords, data = [near_peak, bright_peak]\<rparr>)
       = Inr \<lparr>coordinates = coords, data = [bright_peak]\<rparr>
   \<and> spacing_step (Some 5) (Some 70)
        (pl_sort intensity Descending \<lparr>coordinates = coords, data = [far_peak, bright_peak]\<rparr>)
       = Inr \<lparr>coordinates = coords, data = [bright_peak, far_peak]\<rparr>"
proof -
  have near: "sqrt (dist2 near_peak bright_peak) < 5"
    by (intro real_less_lsqrt) (simp_all add: dist2_def near_peak_def bright_peak_def)
  have far: "5 < sqrt (dist2 far_peak bright_peak)"
    by (intro real_less_rsqrt) (simp_all add: dist2_def far_peak_def bright_peak_def)
  have i: "intensity bright_peak = 10" "intensity near_peak = 5" "intensity far_peak = 5"
    by (simp_all add: bright_peak_def near_peak_def far_peak_def)
  have d: "dist2 near_peak bright_peak < 25" "\<not> dist2 far_peak bright_peak < 25"
    by (simp_all add: dist2_def near_peak_def far_peak_def bright_peak_def)
  show ?thesis
    using spacing_sweep_greedy [of "[bright_peak, near_peak]" 25 "Some 5" 70 "PointList coords" bright_peak near_peak 5 coords]
      spacing_sweep_greedy [of "[bright_peak, far_peak]" 25 "Some 5" 70 "PointList coords" bright_peak far_peak 5 coords]
      near far i d
    by simp
qed

theorem intensity_threshold_removes_below_witness:
  "data example_cell \<noteq> [] \<and> 0 \<le> Max (set (map intensity (data example_cell)))
   \<and> intensity_step (Some (5 / 100)) (pl_sort intensity Descending example_cell)
       = Inr (example_cell\<lparr>data := take 2 (data example_cell)\<rparr>)
   \<and> filter (\<lambda>r. \<not> intensity r < 5 / 100 * Max (set (map intensity (data example_cell))))
         (data (pl_sort intensity Descending example_cell)) = take 2 (data example_cell)"
proof -
  have h: "data example_cell \<noteq> [] \<and> 0 \<le> Max (set (map intensity (data example_cell)))"
    and i: "map intensity (data example_cell) = [100, 40, 3]"
    by (simp_all add: example_cell_def)
  have "filter (\<lambda>r. \<not> intensity r < 5 / 100 * Max (set (map intensity (data example_cell))))
         (data (pl_sort intensity Descending example_cell)) = take 2 (data example_cell)"
    by (simp add: example_cell_def pl_sort_def)
  then show ?thesis
    using intensity_threshold_removes_below [of example_cell "5 / 100"] h i by simp
qed

theorem maxNumPeaks_truncation_witness:
  "threshold_pointlist None None (Some 1) close_pair = Inr (close_pair\<lparr>data := [bright_peak]\<rparr>)"
proof -
  have f: "filtered_pointlist None None (Some 1) close_pair = Inr close_pair"
    by (simp add: filtered_pointlist_def intensity_step_def spacing_step_enabled pl_sort_def
        spacing_squared_def close_pair_def spacing_deletemask_two dist2_def bright_peak_def
        near_peak_def nths_Cons)
  show ?thesis
    using maxNumPeaks_truncation [of 1 None close_pair None] f
    by (simp add: close_pair_def)
qed

lemma fft2_returns:
  "0 < fst (arr_shape a) \<Longrightarrow> 0 < snd (arr_shape a) \<Longrightarrow>
   \<exists>F. fft2 a = Inr F \<and> arr_shape F = arr_shape a"
  by (simp add: fft2_def Let_def)

lemma ifft2_returns:
  "0 < fst (arr_shape a) \<Longrightarrow> 0 < snd (arr_shape a) \<Longrightarrow>
   \<exists>c. ifft2 a = Inr c \<and> arr_shape c = arr_shape a"
  by (simp add: ifft2_def Let_def)

lemma np_multiply_same_shape:
  "arr_shape a = arr_shape b \<Longrightarrow> \<exists>m. np_multiply a b = Inr m \<and> arr_shape m = arr_shape a"
  by (simp add: np_multiply_def broadcast_dim_def)

lemma arr_shape_simps [simp]:
  "arr_shape (as_complex a) = arr_shape a"
  "arr_shape (np_real c) = arr_shape c"
  "arr_shape (np_conj c) = arr_shape c"
  "arr_shape (np_maximum0 a) = arr_shape a"
  "arr_shape (hybrid_spectrum c p) = arr_shape c"
  by (simp_all add: as_complex_def np_real_def np_conj_def np_maximum0_def hybrid_spectrum_def)

lemma np_maximum0_nonneg: "0 \<le> arr_at (np_maximum0 a) i j"
  by (simp add: np_maximum0_def)

lemma correlation_chain:
  assumes "arr_shape DP = arr_shape K" and "0 < fst (arr_shape DP)" and "0 < snd (arr_shape DP)"
  shows "\<exists>F M c. fft2 (as_complex DP) = Inr F \<and> np_multiply F K = Inr M
           \<and> ifft2 (hybrid_spectrum M p) = Inr c \<and> arr_shape c = arr_shape DP"
proof -
  obtain F where F: "fft2 (as_complex DP) = Inr F" "arr_shape F = arr_shape DP"
    using fft2_returns [of "as_complex DP"] assms by auto
  obtain M where M: "np_multiply F K = Inr M" "arr_shape M = arr_shape DP"
    using np_multiply_same_shape [of F K] F assms by auto
  obtain c where "ifft2 (hybrid_spectrum M p) = Inr c" "arr_shape c = arr_shape DP"
    using ifft2_returns [of "hybrid_spectrum M p"] M assms by auto
  with F M show ?thesis by blast
qed

lemma correlation_surface_chain:
  assumes "subpixel \<in> set [''none'', ''poly'', ''multicorr'']"
    and "fft2 (as_complex DP) = Inr F" and "np_multiply F K = Inr M"
    and "ifft2 (hybrid_spectrum M p) = Inr c"
  shows "correlation_surface subpixel DP K p =
           Inr (np_maximum0 (np_real c),
                if subpixel = ''multicorr'' then Some (hybrid_spectrum M p) else None)"
  using assms
  by (auto simp: correlation_surface_def get_cross_correlation_fk_def hybrid_correlation_def Let_def)

text \<open>
  Claim C6. For a pattern and a transformed kernel of the same shape and a correlation
  power between 0 and 1, in each of the three subpixel modes the correlation surface that
  is handed to the maxima extractor is the real part of the inverse transform of
  \<open>|M|^corrPower * exp(i angle(M))\<close>, where \<open>M\<close> is the product of the transform of the
  pattern with the kernel, clamped at zero; every element of it is at least zero.
\<close>

theorem correlation_surface_nonnegative:
  assumes "subpixel \<in> set [''none'', ''poly'', ''multicorr'']"
    and "0 \<le> corrPower" and "corrPower \<le> 1"
    and "arr_shape DP = arr_shape probe_kernel_FT"
    and "0 < fst (arr_shape DP)" and "0 < snd (arr_shape DP)"
  shows "\<exists>F M c ccc.
           fft2 (as_complex DP) = Inr F \<and> np_multiply F probe_kernel_FT = Inr M
           \<and> ifft2 (hybrid_spectrum M corrPower) = Inr c
           \<and> correlation_surface subpixel DP probe_kernel_FT corrPower
               = Inr (np_maximum0 (np_real c), ccc)
           \<and> (\<forall>i j. 0 \<le> arr_at (np_maximum0 (np_real c)) i j)"
proof -
  obtain F M c where ch: "fft2 (as_complex DP) = Inr F" "np_multiply F probe_kernel_FT = Inr M"
      "ifft2 (hybrid_spectrum M corrPower) = Inr c"
    using correlation_chain [OF assms(4-6)] by blast
  show ?thesis
    using ch correlation_surface_chain [OF assms(1) ch] np_maximum0_nonneg by blast
qed

lemma for_each_append:
  "for_each body (as @ bs) s = bind_err (for_each body as s) (for_each body bs)"
  by (induction as arbitrary: s) (auto split: sum.splits)

lemma refine_loop_prefix:
  assumes "length xs = length ys" and "k \<le> length xs"
  shows "for_each (refine_peak u ccc uf) [0..<k] (xs, ys) =
           Inr (map (\<lambda>i. if i < k
                          then fst (refine_position u ccc uf (xs ! i) (ys ! i))
                          else xs ! i) [0..<length xs],
                map (\<lambda>i. if i < k
                          then snd (refine_position u ccc uf (xs ! i) (ys ! i))
                          else ys ! i) [0..<length xs])"
  using assms(2)
proof (induction k)
  case 0
  have "map (\<lambda>i. xs ! i) [0..<length xs] = xs"
    by (rule map_nth)
  moreover have "map (\<lambda>i. ys ! i) [0..<length xs] = ys"
    unfolding assms(1) by (rule map_nth)
  ultimately show ?case by simp
next
  case (Suc k)
  let ?fx = "\<lambda>i. fst (refine_position u ccc uf (xs ! i) (ys ! i))"
  let ?fy = "\<lambda>i. snd (refine_position u ccc uf (xs ! i) (ys ! i))"
  let ?X = "\<lambda>k. map (\<lambda>i. if i < k then ?fx i else xs ! i) [0..<length xs]"
  let ?Y = "\<lambda>k. map (\<lambda>i. if i < k then ?fy i else ys ! i) [0..<length xs]"
  have k: "k < length xs" using Suc.prems by simp
  have IH: "for_each (refine_peak u ccc uf) [0..<k] (xs, ys) = Inr (?X k, ?Y k)"
    using Suc by simp
  have X: "(?X k)[k := ?fx k] = ?X (Suc k)"
    by (rule nth_equalityI) (auto simp: nth_list_update less_Suc_eq)
  have Y: "(?Y k)[k := ?fy k] = ?Y (Suc k)"
    by (rule nth_equalityI) (auto simp: nth_list_update less_Suc_eq)
  have "refine_peak u ccc uf k (?X k, ?Y k) = Inr ((?X k)[k := ?fx k], (?Y k)[k := ?fy k])"
    using k by (simp add: refine_peak_def Let_def)
  then have "refine_peak u ccc uf k (?X k, ?Y k) = Inr (?X (Suc k), ?Y (Suc k))"
    by (simp only: X Y)
  then show ?case
    by (simp only: upt_Suc_append [OF le0] for_each_append IH bind_err_Inr for_each.simps sum.case)
qed

lemma refine_loop:
  assumes "length xs = length ys"
  shows "for_each (refine_peak u ccc uf) [0..<length xs] (xs, ys) =
           Inr (map (\<lambda>(x, y). fst (refine_position u ccc uf x y)) (zip xs ys),
                map (\<lambda>(x, y). snd (refine_position u ccc uf x y)) (zip xs ys))"
proof -
  have "map (\<lambda>i. if i < length xs
                  then f (xs ! i) (ys ! i) else g i) [0..<length xs]
        = map (\<lambda>(x, y). f x y) (zip xs ys)" for f :: "real \<Rightarrow> real \<Rightarrow> real" and g
    using assms by (intro nth_equalityI) simp_all
  note eq = this
  show ?thesis
    using refine_loop_prefix [OF assms order_refl, of u ccc uf]
      eq [of "\<lambda>x y. fst (refine_position u ccc uf x y)" "\<lambda>i. xs ! i"]
      eq [of "\<lambda>x y. snd (refine_position u ccc uf x y)" "\<lambda>i. ys ! i"]
    by simp
qed

lemma find_maxima_plain:
  assumes "subpixel = ''none'' \<or> subpixel = ''poly''"
  shows "find_maxima u subpixel (cc, ccc_opt) sigma eb mri mps mnp uf =
           Inr (get_maxima_2D u cc sigma eb mri mps mnp (subpixel \<noteq> ''none''))"
  using assms by (auto simp: find_maxima_def)

lemma find_maxima_multicorr:
  assumes "get_maxima_2D u cc sigma eb mri mps mnp True = (xs, ys, is)"
    and "length xs = length ys"
  shows "find_maxima u ''multicorr'' (cc, Some ccc) sigma eb mri mps mnp uf =
           Inr (map (\<lambda>(x, y). fst (refine_position u ccc uf x y)) (zip xs ys),
                map (\<lambda>(x, y). snd (refine_position u ccc uf x y)) (zip xs ys), is)"
  by (simp add: find_maxima_def assms(1) refine_loop [OF assms(2)])

lemma correlation_surface_multicorr:
  assumes "correlation_surface ''multicorr'' DP K p = Inr (cc, ccc_opt)"
  shows "\<exists>ccc. ccc_opt = Some ccc"
  using assms
  by (auto simp: correlation_surface_def bind_err_def Let_def split: sum.splits)

lemma add_tuple_rows:
  assumes "length (coordinates pl) = 3" and "length xs = length ys" and "length ys = length is"
  shows "add_tuple_of_nparrays pl (xs, ys, is) =
           Inr (pl\<lparr>data := data pl @
                   map (\<lambda>(x, y, i). \<lparr>qx = x, qy = y, intensity = i\<rparr>) (zip xs (zip ys is))\<rparr>)"
  using assms by (simp add: add_tuple_of_nparrays_def)

lemma intensity_of_rows:
  assumes "length xs = length ys" and "length ys = length is"
  shows "map intensity (map (\<lambda>(x, y, i). \<lparr>qx = x, qy = y, intensity = i\<rparr>) (zip xs (zip ys is))) = is"
  using assms by (intro nth_equalityI) simp_all

lemma qx_of_rows:
  assumes "length xs = length ys" and "length ys = length is"
  shows "map qx (map (\<lambda>(x, y, i). \<lparr>qx = x, qy = y, intensity = i\<rparr>) (zip xs (zip ys is))) = xs"
  using assms by (intro nth_equalityI) simp_all

lemma qy_of_rows:
  assumes "length xs = length ys" and "length ys = length is"
  shows "map qy (map (\<lambda>(x, y, i). \<lparr>qx = x, qy = y, intensity = i\<rparr>) (zip xs (zip ys is))) = ys"
  using assms by (intro nth_equalityI) simp_all

lemma single_DP_with_maxima:
  assumes "subpixel \<in> set [''none'', ''poly'', ''multicorr'']"
    and "correlation_surface subpixel DP K p = Inr (cc, ccc_opt)"
    and "find_maxima u subpixel (cc, ccc_opt) sigma eb mri mps mnp uf = Inr (xs, ys, is)"
    and "length xs = length ys" and "length ys = length is"
    and "length (coordinates (case peaks of None \<Rightarrow> PointList coords | Some pl \<Rightarrow> pl)) = 3"
  shows "find_Bragg_disks_single_DP_FK u DP K p sigma eb mri mps mnp subpixel uf rc peaks =
           (let pl0 = (case peaks of None \<Rightarrow> PointList coords | Some pl \<Rightarrow> pl);
                pl' = pl0\<lparr>data := data pl0 @
                   map (\<lambda>(x, y, i). \<lparr>qx = x, qy = y, intensity = i\<rparr>) (zip xs (zip ys is))\<rparr>
            in (map_option (\<lambda>_. pl') peaks,
                Inr (pl', if rc then Some (gaussian_filter cc sigma) else None)))"
proof -
  have valid: "\<not> subpixel \<notin> set [''none'', ''poly'', ''multicorr'']"
    using assms(1) by simp
  show ?thesis
    unfolding find_Bragg_disks_single_DP_FK_def
    by (simp only: valid if_False assms(2) assms(3) sum.case add_tuple_rows [OF assms(6,4,5)]
        Let_def fst_conv)
qed

text \<open>
  Claim C7. For every value of \<open>subpixel\<close> other than \<open>'none'\<close>, \<open>'poly'\<close> and
  \<open>'multicorr'\<close> the call fails with InvalidConfiguration, whatever the pattern, the
  kernel and the helper functions are, so before any correlation is computed, and a peak
  list supplied by the caller is left as it was.
\<close>

theorem unrecognized_subpixel_fails_fast:
  assumes "subpixel \<notin> set [''none'', ''poly'', ''multicorr'']"
  shows "find_Bragg_disks_single_DP_FK u DP probe_kernel_FT corrPower sigma edgeBoundary
           minRelativeIntensity minPeakSpacing maxNumPeaks subpixel upsample_factor return_cc peaks
         = (peaks, Inl InvalidConfiguration)"
  using assms by (simp add: find_Bragg_disks_single_DP_FK_def)

theorem unrecognized_subpixel_fails_fast_witness:
  "find_Bragg_disks_single_DP_FK origin_utils spike_pattern point_kernel_FT 1 2 20 (1 / 200) 60 70
     ''gaussian'' 4 False (Some close_pair) = (Some close_pair, Inl InvalidConfiguration)"
  using unrecognized_subpixel_fails_fast [where subpixel = "''gaussian''"]
  by simp

text \<open>
  Claim C8. In the multicorr mode the rows that the call appends to the peak list carry
  the intensities that the maxima extractor returned, one by one and in its order; only
  their positions are those refined by \<open>upsampled_correlation\<close>. The rows that the
  list had before are kept.
\<close>

theorem multicorr_keeps_intensity:
  assumes "correlation_surface ''multicorr'' DP probe_kernel_FT corrPower = Inr (cc, Some ccc)"
    and "get_maxima_2D u cc sigma edgeBoundary minRelativeIntensity minPeakSpacing maxNumPeaks True
           = (maxima_x, maxima_y, maxima_int)"
    and "length maxima_x = length maxima_y" and "length maxima_y = length maxima_int"
    and "length (coordinates (case peaks of None \<Rightarrow> PointList coords | Some pl \<Rightarrow> pl)) = 3"
  shows "\<exists>pl r. snd (find_Bragg_disks_single_DP_FK u DP probe_kernel_FT corrPower sigma edgeBoundary
                      minRelativeIntensity minPeakSpacing maxNumPeaks ''multicorr'' upsample_factor
                      return_cc peaks) = Inr (pl, r)
           \<and> take (length (data (case peaks of None \<Rightarrow> PointList coords | Some pl \<Rightarrow> pl))) (data pl)
               = data (case peaks of None \<Rightarrow> PointList coords | Some pl \<Rightarrow> pl)
           \<and> map intensity
                 (drop (length (data (case peaks of None \<Rightarrow> PointList coords | Some pl \<Rightarrow> pl))) (data pl))
               = maxima_int
           \<and> map (\<lambda>r. (qx r, qy r))
                 (drop (length (data (case peaks of None \<Rightarrow> PointList coords | Some pl \<Rightarrow> pl))) (data pl))
               = map (\<lambda>(x, y). refine_position u ccc upsample_factor x y) (zip maxima_x maxima_y)"
proof -
  let ?xs = "map (\<lambda>(x, y). fst (refine_position u ccc upsample_factor x y)) (zip maxima_x maxima_y)"
  let ?ys = "map (\<lambda>(x, y). snd (refine_position u ccc upsample_factor x y)) (zip maxima_x maxima_y)"
  let ?pl0 = "case peaks of None \<Rightarrow> PointList coords | Some pl \<Rightarrow> pl"
  let ?rows = "map (\<lambda>(x, y, i). \<lparr>qx = x, qy = y, intensity = i\<rparr>) (zip ?xs (zip ?ys maxima_int))"
  have fm: "find_maxima u ''multicorr'' (cc, Some ccc) sigma edgeBoundary minRelativeIntensity
              minPeakSpacing maxNumPeaks upsample_factor = Inr (?xs, ?ys, maxima_int)"
    by (rule find_maxima_multicorr [OF assms(2,3)])
  have len: "length ?xs = length ?ys" "length ?ys = length maxima_int"
    using assms(3,4) by simp_all
  have res: "snd (find_Bragg_disks_single_DP_FK u DP probe_kernel_FT corrPower sigma edgeBoundary
                      minRelativeIntensity minPeakSpacing maxNumPeaks ''multicorr'' upsample_factor
                      return_cc peaks)
        = Inr (?pl0\<lparr>data := data ?pl0 @ ?rows\<rparr>,
               if return_cc then Some (gaussian_filter cc sigma) else None)"
    using single_DP_with_maxima [OF _ assms(1) fm len assms(5), where rc = return_cc]
    by (simp add: Let_def)
  have int: "map intensity ?rows = maxima_int"
    by (rule intensity_of_rows [OF len])
  have pos: "map (\<lambda>r. (qx r, qy r)) ?rows
               = map (\<lambda>(x, y). refine_position u ccc upsample_factor x y) (zip maxima_x maxima_y)"
    using assms(3,4) by (intro nth_equalityI) simp_all
  show ?thesis
    using res int pos by simp
qed

lemma find_maxima_returns:
  assumes "subpixel \<in> set [''none'', ''poly'', ''multicorr'']"
    and "correlation_surface subpixel DP K p = Inr (cc, ccc_opt)"
    and "get_maxima_2D u cc sigma eb mri mps mnp (subpixel \<noteq> ''none'') = (xs, ys, is)"
    and "length xs = length ys"
  shows "\<exists>xs' ys'. find_maxima u subpixel (cc, ccc_opt) sigma eb mri mps mnp uf = Inr (xs', ys', is)
           \<and> length xs' = length xs \<and> length ys' = length ys"
proof (cases "subpixel = ''multicorr''")
  case True
  then obtain ccc where "ccc_opt = Some ccc"
    using assms(2) correlation_surface_multicorr by blast
  then show ?thesis
    using True assms(3,4) find_maxima_multicorr [of u cc sigma eb mri mps mnp xs ys "is" ccc uf]
    by simp
next
  case False
  then have "subpixel = ''none'' \<or> subpixel = ''poly''"
    using assms(1) by auto
  from find_maxima_plain [OF this] assms(3) show ?thesis
    by simp
qed

lemma spike_surface:
  assumes "subpixel \<in> set [''none'', ''poly'', ''multicorr'']"
  shows "\<exists>cc ccc_opt. correlation_surface subpixel spike_pattern point_kernel_FT 1 = Inr (cc, ccc_opt)
           \<and> arr_shape cc = (1, 2) \<and> arr_at cc 0 0 = 1 \<and> arr_at cc 0 1 = 0
           \<and> (\<forall>i j. 0 \<le> arr_at cc i j)"
proof -
  have sh: "arr_shape spike_pattern = arr_shape point_kernel_FT"
    "0 < fst (arr_shape spike_pattern)" "0 < snd (arr_shape spike_pattern)"
    by (simp_all add: spike_pattern_def point_kernel_FT_def)
  have F: "fft2 (as_complex spike_pattern) = Inr \<lparr>arr_shape = (1, 2), arr_at = (\<lambda>k l. 1)\<rparr>"
    by (simp add: fft2_def as_complex_def spike_pattern_def Let_def upt_rec)
  have M: "np_multiply \<lparr>arr_shape = (1, 2), arr_at = (\<lambda>k l. 1)\<rparr> point_kernel_FT
             = Inr \<lparr>arr_shape = (1, 2), arr_at = (\<lambda>k l. 1)\<rparr>"
    by (simp add: np_multiply_def broadcast_dim_def point_kernel_FT_def)
  have H: "hybrid_spectrum \<lparr>arr_shape = (1, 2), arr_at = (\<lambda>k l. 1)\<rparr> 1
             = \<lparr>arr_shape = (1, 2), arr_at = (\<lambda>k l. 1)\<rparr>"
    using cis_Arg [of 1] by (simp add: hybrid_spectrum_def np_power_def)
  obtain c where c: "ifft2 \<lparr>arr_shape = (1, 2), arr_at = (\<lambda>k l. 1)\<rparr> = Inr c"
    and c00: "arr_at c 0 0 = 1" and c01: "arr_at c 0 1 = 0" and csh: "arr_shape c = (1, 2)"
    by (simp add: ifft2_def Let_def upt_rec)
  have "correlation_surface subpixel spike_pattern point_kernel_FT 1 =
           Inr (np_maximum0 (np_real c),
                if subpixel = ''multicorr'' then Some (hybrid_spectrum \<lparr>arr_shape = (1, 2), arr_at = (\<lambda>k l. 1)\<rparr> 1) else None)"
    using correlation_surface_chain [OF assms F M] c H by simp
  moreover have "arr_at (np_maximum0 (np_real c)) 0 0 = 1" "arr_at (np_maximum0 (np_real c)) 0 1 = 0"
    using c00 c01 by (simp_all add: np_maximum0_def np_real_def)
  moreover have "arr_shape (np_maximum0 (np_real c)) = (1, 2)"
    using csh by simp
  ultimately show ?thesis
    using np_maximum0_nonneg by blast
qed

lemma gaussian_phi_pos: "0 < gaussian_phi sigma x"
  by (simp add: gaussian_phi_def)

lemma sum_list_pos_nonempty:
  fixes xs :: "real list"
  shows "xs \<noteq> [] \<Longrightarrow> (\<And>x. x \<in> set xs \<Longrightarrow> 0 < x) \<Longrightarrow> 0 < sum_list xs"
proof (induction xs)
  case Nil
  then show ?case by simp
next
  case (Cons x xs)
  show ?case
  proof (cases "xs = []")
    case True
    with Cons.prems show ?thesis by simp
  next
    case False
    then have "0 < sum_list xs" using Cons by simp
    moreover have "0 < x" using Cons.prems by simp
    ultimately show ?thesis by simp
  qed
qed

lemma gaussian_kernel1d_pos:
  assumes "0 \<le> lw"
  shows "0 < gaussian_kernel1d sigma lw x"
proof -
  have "[- lw..lw] \<noteq> []" using assms by simp
  then have "0 < (\<Sum>y\<leftarrow>[- lw..lw]. gaussian_phi sigma y)"
    by (intro sum_list_pos_nonempty) (auto simp: gaussian_phi_pos)
  then show ?thesis
    by (simp add: gaussian_kernel1d_def gaussian_phi_pos)
qed

lemma sum_list_ge_member:
  fixes f :: "int \<Rightarrow> real"
  shows "x \<in> set xs \<Longrightarrow> (\<And>y. y \<in> set xs \<Longrightarrow> 0 \<le> f y) \<Longrightarrow> f x \<le> (\<Sum>y\<leftarrow>xs. f y)"
proof (induction xs)
  case Nil
  then show ?case by simp
next
  case (Cons a xs)
  have rest: "0 \<le> (\<Sum>y\<leftarrow>xs. f y)"
    using Cons.prems(2) by (intro sum_list_nonneg) auto
  show ?case
  proof (cases "x = a")
    case True
    with rest show ?thesis by simp
  next
    case False
    with Cons have "f x \<le> (\<Sum>y\<leftarrow>xs. f y)" by simp
    moreover have "0 \<le> f a" using Cons.prems(2) by simp
    ultimately show ?thesis by simp
  qed
qed

lemma gaussian_filter1d_term:
  assumes "0 \<le> gaussian_radius sigma" and "\<And>i j. 0 \<le> arr_at a i j"
    and "- gaussian_radius sigma \<le> x" and "x \<le> gaussian_radius sigma"
  shows "gaussian_kernel1d sigma (gaussian_radius sigma) x *
           (if axis = 0 then arr_at a (reflect_index (fst (arr_shape a)) (int i + x)) j
            else arr_at a i (reflect_index (snd (arr_shape a)) (int j + x)))
         \<le> arr_at (gaussian_filter1d a sigma axis) i j"
proof -
  let ?f = "\<lambda>x. gaussian_kernel1d sigma (gaussian_radius sigma) x *
           (if axis = 0 then arr_at a (reflect_index (fst (arr_shape a)) (int i + x)) j
            else arr_at a i (reflect_index (snd (arr_shape a)) (int j + x)))"
  have "?f x \<le> (\<Sum>y\<leftarrow>[- gaussian_radius sigma..gaussian_radius sigma]. ?f y)"
  proof (rule sum_list_ge_member)
    show "x \<in> set [- gaussian_radius sigma..gaussian_radius sigma]"
      using assms(3,4) by simp
  next
    fix y
    have "0 < gaussian_kernel1d sigma (gaussian_radius sigma) y"
      by (rule gaussian_kernel1d_pos [OF assms(1)])
    then show "0 \<le> ?f y"
      using assms(2) by simp
  qed
  then show ?thesis
    by (simp add: gaussian_filter1d_def Let_def)
qed

lemma gaussian_filter1d_nonneg:
  assumes "0 \<le> gaussian_radius sigma" and "\<And>i j. 0 \<le> arr_at a i j"
  shows "0 \<le> arr_at (gaussian_filter1d a sigma axis) i j"
proof -
  have "0 \<le> gaussian_kernel1d sigma (gaussian_radius sigma) 0 *
           (if axis = 0 then arr_at a (reflect_index (fst (arr_shape a)) (int i + 0)) j
            else arr_at a i (reflect_index (snd (arr_shape a)) (int j + 0)))"
    using gaussian_kernel1d_pos [OF assms(1), of sigma 0] assms(2) by simp
  also have "\<dots> \<le> arr_at (gaussian_filter1d a sigma axis) i j"
    using assms by (intro gaussian_filter1d_term) simp_all
  finally show ?thesis .
qed

lemma gaussian_radius_two: "gaussian_radius 2 = 8"
  by (simp add: gaussian_radius_def)

lemma smoothing_spreads:
  assumes "arr_shape cc = (1, 2)" and "arr_at cc 0 0 = 1" and "\<And>i j. 0 \<le> arr_at cc i j"
  shows "0 < arr_at (gaussian_filter cc 2) 0 1"
proof -
  let ?g0 = "gaussian_filter1d cc 2 0"
  have r: "0 \<le> gaussian_radius 2" by (simp add: gaussian_radius_two)
  have w: "0 < gaussian_kernel1d 2 (gaussian_radius 2) x" for x
    by (rule gaussian_kernel1d_pos [OF r])
  have "gaussian_kernel1d 2 (gaussian_radius 2) 0 *
          (if (0::nat) = 0 then arr_at cc (reflect_index (fst (arr_shape cc)) (int 0 + 0)) 0
           else arr_at cc 0 (reflect_index (snd (arr_shape cc)) (int 0 + 0)))
        \<le> arr_at ?g0 0 0"
    using assms(3) by (intro gaussian_filter1d_term [OF r]) (simp_all add: gaussian_radius_two)
  then have g00: "0 < arr_at ?g0 0 0"
    using w [of 0] assms(1,2) by (simp add: reflect_index_def)
  have sh: "arr_shape ?g0 = (1, 2)"
    using assms(1) by (simp add: gaussian_filter1d_def Let_def)
  have "gaussian_kernel1d 2 (gaussian_radius 2) (- 1) *
          (if (1::nat) = 0 then arr_at ?g0 (reflect_index (fst (arr_shape ?g0)) (int 0 + (- 1))) 1
           else arr_at ?g0 0 (reflect_index (snd (arr_shape ?g0)) (int 1 + (- 1))))
        \<le> arr_at (gaussian_filter1d ?g0 2 1) 0 1"
    using gaussian_filter1d_nonneg [OF r assms(3)]
    by (intro gaussian_filter1d_term [OF r]) (simp_all add: gaussian_radius_two)
  then have "gaussian_kernel1d 2 (gaussian_radius 2) (- 1) * arr_at ?g0 0 0
        \<le> arr_at (gaussian_filter1d ?g0 2 1) 0 1"
    by (simp add: sh reflect_index_def)
  moreover have "0 < gaussian_kernel1d 2 (gaussian_radius 2) (- 1) * arr_at ?g0 0 0"
    using w [of "- 1"] g00 by simp
  ultimately show ?thesis
    by (simp add: gaussian_filter_def)
qed

lemma origin_utils_maxima:
  "get_maxima_2D origin_utils cc sigma eb mri mps mnp sp = ([0], [0], [arr_at cc 0 0])"
  by (simp add: origin_utils_def)

lemma parallel_maxima_origin: "parallel_maxima origin_utils"
  by (simp add: parallel_maxima_def origin_utils_def)

lemma parallel_maximaD:
  "parallel_maxima u \<Longrightarrow> get_maxima_2D u cc sigma eb mri mps mnp sp = (xs, ys, is) \<Longrightarrow>
   length xs = length ys \<and> length ys = length is"
  unfolding parallel_maxima_def
  by (metis (mono_tags, lifting) case_prod_conv)

lemma single_DP_returns:
  assumes "subpixel \<in> set [''none'', ''poly'', ''multicorr'']"
    and "correlation_surface subpixel DP K p = Inr (cc, ccc_opt)"
    and "parallel_maxima u"
    and "length (coordinates (case peaks of None \<Rightarrow> PointList coords | Some pl \<Rightarrow> pl)) = 3"
  shows "\<exists>rows. find_Bragg_disks_single_DP_FK u DP K p sigma eb mri mps mnp subpixel uf rc peaks =
           (map_option (\<lambda>_. (case peaks of None \<Rightarrow> PointList coords | Some pl \<Rightarrow> pl)
                               \<lparr>data := data (case peaks of None \<Rightarrow> PointList coords | Some pl \<Rightarrow> pl) @ rows\<rparr>) peaks,
            Inr ((case peaks of None \<Rightarrow> PointList coords | Some pl \<Rightarrow> pl)
                               \<lparr>data := data (case peaks of None \<Rightarrow> PointList coords | Some pl \<Rightarrow> pl) @ rows\<rparr>,
                 if rc then Some (gaussian_filter cc sigma) else None))"
proof -
  obtain xs ys "is" where gm: "get_maxima_2D u cc sigma eb mri mps mnp (subpixel \<noteq> ''none'') = (xs, ys, is)"
    by (metis prod_cases3)
  have len: "length xs = length ys" "length ys = length is"
    using parallel_maximaD [OF assms(3) gm] by simp_all
  obtain xs' ys' where fm: "find_maxima u subpixel (cc, ccc_opt) sigma eb mri mps mnp uf = Inr (xs', ys', is)"
    and len': "length xs' = length xs" "length ys' = length ys"
    using find_maxima_returns [OF assms(1,2) gm len(1)] by blast
  have "length xs' = length ys'" "length ys' = length is"
    using len len' by simp_all
  from single_DP_with_maxima [OF assms(1,2) fm this assms(4), where rc = rc]
  have "find_Bragg_disks_single_DP_FK u DP K p sigma eb mri mps mnp subpixel uf rc peaks =
           (map_option (\<lambda>_. (case peaks of None \<Rightarrow> PointList coords | Some pl \<Rightarrow> pl)
                               \<lparr>data := data (case peaks of None \<Rightarrow> PointList coords | Some pl \<Rightarrow> pl) @
                                  map (\<lambda>(x, y, i). \<lparr>qx = x, qy = y, intensity = i\<rparr>) (zip xs' (zip ys' is))\<rparr>) peaks,
            Inr ((case peaks of None \<Rightarrow> PointList coords | Some pl \<Rightarrow> pl)
                               \<lparr>data := data (case peaks of None \<Rightarrow> PointList coords | Some pl \<Rightarrow> pl) @
                                  map (\<lambda>(x, y, i). \<lparr>qx = x, qy = y, intensity = i\<rparr>) (zip xs' (zip ys' is))\<rparr>,
                 if rc then Some (gaussian_filter cc sigma) else None))"
    by (simp only: Let_def)
  then show ?thesis
    by (rule exI)
qed

lemma find_Bragg_disks_at_returns:
  assumes "subpixel \<in> set [''none'', ''poly'', ''multicorr'']"
    and "parallel_maxima u"
    and "fst pos < fst (pla_shape peaks)" and "snd pos < snd (pla_shape peaks)"
    and "coordinates (pla_cells peaks pos) = coords"
    and "arr_shape (dc_data dc (fst pos) (snd pos)) = arr_shape K"
    and "0 < fst (arr_shape K)" and "0 < snd (arr_shape K)"
  shows "\<exists>cell'. find_Bragg_disks_at u dc K p sigma eb mri mps mnp subpixel uf pos peaks =
                    Inr (peaks\<lparr>pla_cells := (pla_cells peaks)(pos := cell')\<rparr>)
           \<and> coordinates cell' = coords"
proof -
  let ?DP = "dc_data dc (fst pos) (snd pos)"
  let ?cell = "pla_cells peaks pos"
  obtain F M c where "fft2 (as_complex ?DP) = Inr F" "np_multiply F K = Inr M"
      "ifft2 (hybrid_spectrum M p) = Inr c"
    using correlation_chain [of ?DP K p] assms(6-8) by auto
  from correlation_surface_chain [OF assms(1) this]
  obtain cc ccc_opt where cs: "correlation_surface subpixel ?DP K p = Inr (cc, ccc_opt)"
    by blast
  have schema: "length (coordinates (case Some ?cell of None \<Rightarrow> PointList coords | Some pl \<Rightarrow> pl)) = 3"
    using assms(5) by (simp add: coords_def)
  obtain rows where
    "find_Bragg_disks_single_DP_FK u ?DP K p sigma eb mri mps mnp subpixel uf False (Some ?cell) =
       (Some (?cell\<lparr>data := data ?cell @ rows\<rparr>), Inr (?cell\<lparr>data := data ?cell @ rows\<rparr>, None))"
    using single_DP_returns [OF assms(1) cs assms(2) schema, where rc = False and sigma = sigma
        and eb = eb and mri = mri and mps = mps and mnp = mnp and uf = uf]
    by auto
  then have "find_Bragg_disks_at u dc K p sigma eb mri mps mnp subpixel uf pos peaks =
               Inr (peaks\<lparr>pla_cells := (pla_cells peaks)(pos := ?cell\<lparr>data := data ?cell @ rows\<rparr>)\<rparr>)"
    using assms(3,4)
    by (simp add: find_Bragg_disks_at_def get_pointlist_def store_pointlist_def)
  then show ?thesis
    using assms(5) by auto
qed

lemma find_Bragg_disks_loop:
  assumes "subpixel \<in> set [''none'', ''poly'', ''multicorr'']"
    and "parallel_maxima u"
    and "0 < fst (arr_shape K)" and "0 < snd (arr_shape K)"
    and "\<forall>pos \<in> set ps. fst pos < fst (pla_shape peaks) \<and> snd pos < snd (pla_shape peaks)
           \<and> arr_shape (dc_data dc (fst pos) (snd pos)) = arr_shape K"
    and "\<forall>pos. coordinates (pla_cells peaks pos) = coords"
  shows "\<exists>peaks'. for_each (find_Bragg_disks_at u dc K p sigma eb mri mps mnp subpixel uf) ps peaks
                     = Inr peaks'
           \<and> pla_shape peaks' = pla_shape peaks \<and> pla_coordinates peaks' = pla_coordinates peaks
           \<and> (\<forall>pos. coordinates (pla_cells peaks' pos) = coords)"
  using assms(5,6)
proof (induction ps arbitrary: peaks)
  case Nil
  then show ?case by simp
next
  case (Cons pos ps)
  have "\<exists>cell'. find_Bragg_disks_at u dc K p sigma eb mri mps mnp subpixel uf pos peaks =
                    Inr (peaks\<lparr>pla_cells := (pla_cells peaks)(pos := cell')\<rparr>)
           \<and> coordinates cell' = coords"
    using Cons.prems
    by (intro find_Bragg_disks_at_returns [OF assms(1,2) _ _ _ _ assms(3,4)])
       (simp_all del: split_paired_All)
  then obtain cell' where step: "find_Bragg_disks_at u dc K p sigma eb mri mps mnp subpixel uf pos peaks =
                    Inr (peaks\<lparr>pla_cells := (pla_cells peaks)(pos := cell')\<rparr>)"
    and c: "coordinates cell' = coords"
    by blast
  let ?peaks = "peaks\<lparr>pla_cells := (pla_cells peaks)(pos := cell')\<rparr>"
  have "\<exists>peaks'. for_each (find_Bragg_disks_at u dc K p sigma eb mri mps mnp subpixel uf) ps ?peaks
                     = Inr peaks'
           \<and> pla_shape peaks' = pla_shape ?peaks \<and> pla_coordinates peaks' = pla_coordinates ?peaks
           \<and> (\<forall>pos. coordinates (pla_cells peaks' pos) = coords)"
    using Cons.prems c by (intro Cons.IH) (simp_all del: split_paired_All)
  then show ?case
    using step by simp
qed

lemma length_scan_positions: "length (scan_positions nx ny) = nx * ny"
  by (induction nx) (simp_all add: scan_positions_def)

lemma scan_positions_Suc:
  "scan_positions (Suc nx) ny = scan_positions nx ny @ map (\<lambda>Ry. (nx, Ry)) [0..<ny]"
  by (simp add: scan_positions_def)

lemma scan_positions_nth:
  "k < nx * ny \<Longrightarrow> scan_positions nx ny ! k = (k div ny, k mod ny)"
proof (induction nx)
  case 0
  then show ?case by simp
next
  case (Suc nx)
  show ?case
  proof (cases "k < nx * ny")
    case True
    with Suc show ?thesis
      by (simp add: scan_positions_Suc nth_append length_scan_positions)
  next
    case False
    with Suc.prems have k: "nx * ny \<le> k" "k - nx * ny < ny" by simp_all
    then have "k div ny = nx" "k mod ny = k - nx * ny"
      by (metis add.commute div_mult_self1 div_less le_add_diff_inverse less_nat_zero_code
            mult.commute add_0 not_gr_zero)
         (metis add.commute le_add_diff_inverse mod_less mod_mult_self2 mult.commute k)
    with False k show ?thesis
      by (simp add: scan_positions_Suc nth_append length_scan_positions)
  qed
qed

text \<open>
  Claim C9. For a datacube whose patterns have the shape of the probe, a recognised
  subpixel mode and a maxima extractor that returns parallel arrays, \<open>find_Bragg_disks\<close>
  returns a grid of the shape \<open>(R_Nx, R_Ny)\<close> of the scan, every cell of which is a peak
  list with the coordinates \<open>qx\<close>, \<open>qy\<close> and \<open>intensity\<close>, all of type float, whether
  peaks were found there or not; the scan positions are visited in row-major order.
\<close>

theorem find_Bragg_disks_grid_shape:
  assumes "subpixel \<in> set [''none'', ''poly'', ''multicorr'']"
    and "parallel_maxima u"
    and "0 < fst (arr_shape probe)" and "0 < snd (arr_shape probe)"
    and "\<forall>Rx<R_Nx dc. \<forall>Ry<R_Ny dc. arr_shape (dc_data dc Rx Ry) = arr_shape probe"
  shows "\<exists>peaks. find_Bragg_disks u dc probe corrPower sigma edgeBoundary minRelativeIntensity
                    minPeakSpacing maxNumPeaks subpixel upsample_factor = Inr peaks
           \<and> pla_shape peaks = (R_Nx dc, R_Ny dc)
           \<and> pla_coordinates peaks = coords
           \<and> (\<forall>Rx<R_Nx dc. \<forall>Ry<R_Ny dc.
                 \<exists>pl. get_pointlist peaks Rx Ry = Inr pl \<and> coordinates pl = coords)
           \<and> length (scan_positions (R_Nx dc) (R_Ny dc)) = R_Nx dc * R_Ny dc
           \<and> (\<forall>k<R_Nx dc * R_Ny dc.
                 scan_positions (R_Nx dc) (R_Ny dc) ! k = (k div R_Ny dc, k mod R_Ny dc))"
proof -
  obtain F where F: "fft2 (as_complex probe) = Inr F" and Fs: "arr_shape F = arr_shape probe"
    using fft2_returns [of "as_complex probe"] assms(3,4) by auto
  let ?K = "np_conj F"
  let ?init = "PointListArray coords (R_Nx dc, R_Ny dc)"
  have K: "0 < fst (arr_shape ?K)" "0 < snd (arr_shape ?K)"
    using Fs assms(3,4) by simp_all
  have pos: "\<forall>pos \<in> set (scan_positions (R_Nx dc) (R_Ny dc)).
               fst pos < fst (pla_shape ?init) \<and> snd pos < snd (pla_shape ?init)
               \<and> arr_shape (dc_data dc (fst pos) (snd pos)) = arr_shape ?K"
    using assms(5) Fs by (auto simp: set_scan_positions PointListArray_def)
  have init: "\<forall>pos. coordinates (pla_cells ?init pos) = coords"
    by (simp add: PointListArray_def PointList_def)
  obtain peaks where run: "for_each (find_Bragg_disks_at u dc ?K corrPower sigma edgeBoundary
        minRelativeIntensity minPeakSpacing maxNumPeaks subpixel upsample_factor)
        (scan_positions (R_Nx dc) (R_Ny dc)) ?init = Inr peaks"
    and sh: "pla_shape peaks = pla_shape ?init"
    and co: "pla_coordinates peaks = pla_coordinates ?init"
    and cells: "\<forall>pos. coordinates (pla_cells peaks pos) = coords"
    using find_Bragg_disks_loop [OF assms(1,2) K pos init, where p = corrPower and sigma = sigma
        and eb = edgeBoundary and mri = minRelativeIntensity and mps = minPeakSpacing
        and mnp = maxNumPeaks and uf = upsample_factor]
    by blast
  have 1: "find_Bragg_disks u dc probe corrPower sigma edgeBoundary minRelativeIntensity
                    minPeakSpacing maxNumPeaks subpixel upsample_factor = Inr peaks"
    by (simp add: find_Bragg_disks_def Let_def F run)
  have 2: "pla_shape peaks = (R_Nx dc, R_Ny dc)" "pla_coordinates peaks = coords"
    using sh co by (simp_all add: PointListArray_def)
  have 3: "\<forall>Rx<R_Nx dc. \<forall>Ry<R_Ny dc. \<exists>pl. get_pointlist peaks Rx Ry = Inr pl \<and> coordinates pl = coords"
    using cells 2 by (simp add: get_pointlist_def del: split_paired_All)
  show ?thesis
    using 1 2 3 length_scan_positions scan_positions_nth by blast
qed

theorem find_Bragg_disks_grid_shape_witness:
  "\<exists>peaks. find_Bragg_disks origin_utils spike_cube spike_pattern 1 2 20 (1 / 200) 60 70 ''poly'' 4
              = Inr peaks
     \<and> pla_shape peaks = (2, 3)
     \<and> (\<exists>pl. get_pointlist peaks 1 2 = Inr pl \<and> coordinates pl = coords)
     \<and> scan_positions 2 3 ! 4 = (1, 1)"
proof -
  have h: "''poly'' \<in> set [''none'', ''poly'', ''multicorr'']"
    "0 < fst (arr_shape spike_pattern)" "0 < snd (arr_shape spike_pattern)"
    "\<forall>Rx<R_Nx spike_cube. \<forall>Ry<R_Ny spike_cube.
        arr_shape (dc_data spike_cube Rx Ry) = arr_shape spike_pattern"
    by (simp_all add: spike_pattern_def spike_cube_def)
  obtain peaks where p: "find_Bragg_disks origin_utils spike_cube spike_pattern 1 2 20 (1 / 200) 60 70 ''poly'' 4
              = Inr peaks"
    "pla_shape peaks = (R_Nx spike_cube, R_Ny spike_cube)"
    "\<forall>Rx<R_Nx spike_cube. \<forall>Ry<R_Ny spike_cube.
                 \<exists>pl. get_pointlist peaks Rx Ry = Inr pl \<and> coordinates pl = coords"
    "\<forall>k<R_Nx spike_cube * R_Ny spike_cube.
                 scan_positions (R_Nx spike_cube) (R_Ny spike_cube) ! k
                   = (k div R_Ny spike_cube, k mod R_Ny spike_cube)"
    using find_Bragg_disks_grid_shape [OF h(1) parallel_maxima_origin h(2,3,4), where corrPower = 1
        and sigma = 2 and edgeBoundary = 20 and minRelativeIntensity = "1 / 200"
        and minPeakSpacing = 60 and maxNumPeaks = 70 and upsample_factor = 4]
    by blast
  have "pla_shape peaks = (2, 3)"
    using p(2) by (simp add: spike_cube_def)
  moreover have "\<exists>pl. get_pointlist peaks 1 2 = Inr pl \<and> coordinates pl = coords"
    using p(3) by (simp add: spike_cube_def)
  moreover have "scan_positions 2 3 ! 4 = (1, 1)"
    using p(4) by (simp add: spike_cube_def)
  ultimately show ?thesis
    using p(1) by blast
qed

text \<open>
  With \<open>return_cc\<close> the call on a pattern of two pixels, one of them bright, does not
  return the correlation surface that it handed to the maxima extractor: the surface is
  zero at the dark pixel and the returned array is positive there.
\<close>

theorem return_cc_not_raw_surface:
  "returned_cc (find_Bragg_disks_single_DP_FK origin_utils spike_pattern point_kernel_FT
                  1 2 20 (1 / 200) 60 70 ''none'' 4 True None)
   \<noteq> surface_of (correlation_surface ''none'' spike_pattern point_kernel_FT 1)"
proof -
  have v: "''none'' \<in> set [''none'', ''poly'', ''multicorr'']" by simp
  obtain cc ccc_opt where cs: "correlation_surface ''none'' spike_pattern point_kernel_FT 1 = Inr (cc, ccc_opt)"
    and sh: "arr_shape cc = (1, 2)" and c00: "arr_at cc 0 0 = 1" and c01: "arr_at cc 0 1 = 0"
    and nn: "\<And>i j. 0 \<le> arr_at cc i j"
    using spike_surface [OF v] by blast
  have schema: "length (coordinates (case None of None \<Rightarrow> PointList coords | Some pl \<Rightarrow> pl)) = 3"
    by (simp add: PointList_def coords_def)
  obtain rows where "find_Bragg_disks_single_DP_FK origin_utils spike_pattern point_kernel_FT
                  1 2 20 (1 / 200) 60 70 ''none'' 4 True None
       = (None, Inr (PointList coords\<lparr>data := data (PointList coords) @ rows\<rparr>,
                     Some (gaussian_filter cc 2)))"
    using single_DP_returns [OF v cs parallel_maxima_origin schema, where rc = True and sigma = 2
        and eb = 20 and mri = "1 / 200" and mps = 60 and mnp = 70 and uf = 4]
    by auto
  then have r: "returned_cc (find_Bragg_disks_single_DP_FK origin_utils spike_pattern point_kernel_FT
                  1 2 20 (1 / 200) 60 70 ''none'' 4 True None) = Some (gaussian_filter cc 2)"
    by (simp add: returned_cc_def)
  have s: "surface_of (correlation_surface ''none'' spike_pattern point_kernel_FT 1) = Some cc"
    by (simp add: surface_of_def cs)
  have "0 < arr_at (gaussian_filter cc 2) 0 1"
    by (rule smoothing_spreads [OF sh c00 nn])
  then have "gaussian_filter cc 2 \<noteq> cc"
    using c01 by auto
  then show ?thesis
    unfolding r s by simp
qed

text \<open>
  Claim C2, as amended. With \<open>return_cc\<close> set, the second value that the call returns
  is \<open>gaussian_filter(cc, sigma)\<close>: the clamped correlation surface \<open>cc\<close> that was
  handed to the maxima extractor, smoothed with the standard deviation \<open>sigma\<close>.
\<close>

theorem return_cc_is_smoothed_surface:
  assumes "subpixel \<in> set [''none'', ''poly'', ''multicorr'']"
    and "correlation_surface subpixel DP probe_kernel_FT corrPower = Inr (cc, ccc_opt)"
    and "parallel_maxima u"
    and "length (coordinates (case peaks of None \<Rightarrow> PointList coords | Some pl \<Rightarrow> pl)) = 3"
  shows "returned_cc (find_Bragg_disks_single_DP_FK u DP probe_kernel_FT corrPower sigma edgeBoundary
                      minRelativeIntensity minPeakSpacing maxNumPeaks subpixel upsample_factor
                      True peaks) = Some (gaussian_filter cc sigma)"
proof -
  have "\<exists>rows. find_Bragg_disks_single_DP_FK u DP probe_kernel_FT corrPower sigma edgeBoundary
                      minRelativeIntensity minPeakSpacing maxNumPeaks subpixel upsample_factor
                      True peaks =
           (map_option (\<lambda>_. (case peaks of None \<Rightarrow> PointList coords | Some pl \<Rightarrow> pl)
                               \<lparr>data := data (case peaks of None \<Rightarrow> PointList coords | Some pl \<Rightarrow> pl) @ rows\<rparr>) peaks,
            Inr ((case peaks of None \<Rightarrow> PointList coords | Some pl \<Rightarrow> pl)
                               \<lparr>data := data (case peaks of None \<Rightarrow> PointList coords | Some pl \<Rightarrow> pl) @ rows\<rparr>,
                 if True then Some (gaussian_filter cc sigma) else None))"
    by (rule single_DP_returns [OF assms])
  then show ?thesis
    by (auto simp: returned_cc_def)
qed

theorem return_cc_is_smoothed_surface_witness:
  "returned_cc (find_Bragg_disks_single_DP_FK origin_utils spike_pattern point_kernel_FT
                  1 2 20 (1 / 200) 60 70 ''poly'' 4 True None)
   = map_option (\<lambda>cc. gaussian_filter cc 2)
       (surface_of (correlation_surface ''poly'' spike_pattern point_kernel_FT 1))"
proof -
  have v: "''poly'' \<in> set [''none'', ''poly'', ''multicorr'']" by simp
  obtain cc ccc_opt where cs: "correlation_surface ''poly'' spike_pattern point_kernel_FT 1 = Inr (cc, ccc_opt)"
    using spike_surface [OF v] by blast
  have schema: "length (coordinates (case None of None \<Rightarrow> PointList coords | Some pl \<Rightarrow> pl)) = 3"
    by (simp add: PointList_def coords_def)
  show ?thesis
    using return_cc_is_smoothed_surface [OF v cs parallel_maxima_origin schema, where sigma = 2
        and edgeBoundary = 20 and minRelativeIntensity = "1 / 200" and minPeakSpacing = 60
        and maxNumPeaks = 70 and upsample_factor = 4]
    by (simp add: surface_of_def cs)
qed

theorem correlation_surface_nonnegative_witness:
  "\<exists>cc ccc. correlation_surface ''multicorr'' spike_pattern point_kernel_FT 1 = Inr (cc, ccc)
      \<and> 0 \<le> arr_at cc 0 0 \<and> 0 \<le> arr_at cc 0 1"
proof -
  have h: "''multicorr'' \<in> set [''none'', ''poly'', ''multicorr'']" "(0::real) \<le> 1" "(1::real) \<le> 1"
    "arr_shape spike_pattern = arr_shape point_kernel_FT"
    "0 < fst (arr_shape spike_pattern)" "0 < snd (arr_shape spike_pattern)"
    by (simp_all add: spike_pattern_def point_kernel_FT_def)
  show ?thesis
    using correlation_surface_nonnegative [OF h] by blast
qed

theorem multicorr_keeps_intensity_witness:
  "\<exists>pl r. snd (find_Bragg_disks_single_DP_FK origin_utils spike_pattern point_kernel_FT
                   1 2 20 (1 / 200) 60 70 ''multicorr'' 4 False None) = Inr (pl, r)
      \<and> map intensity (data pl) = [1]"
proof -
  have v: "''multicorr'' \<in> set [''none'', ''poly'', ''multicorr'']" by simp
  obtain cc ccc_opt where cs: "correlation_surface ''multicorr'' spike_pattern point_kernel_FT 1 = Inr (cc, ccc_opt)"
    and c00: "arr_at cc 0 0 = 1"
    using spike_surface [OF v] by blast
  obtain ccc where ccc: "ccc_opt = Some ccc"
    using correlation_surface_multicorr [OF cs] by blast
  have gm: "get_maxima_2D origin_utils cc 2 20 (1 / 200) 60 70 True = ([0], [0], [1])"
    by (simp add: origin_utils_maxima c00)
  have schema: "length (coordinates (case None of None \<Rightarrow> PointList coords | Some pl \<Rightarrow> pl)) = 3"
    by (simp add: PointList_def coords_def)
  have "\<exists>pl r. snd (find_Bragg_disks_single_DP_FK origin_utils spike_pattern point_kernel_FT
                   1 2 20 (1 / 200) 60 70 ''multicorr'' 4 False None) = Inr (pl, r)
      \<and> map intensity (drop 0 (data pl)) = [1]"
    using multicorr_keeps_intensity [OF cs [unfolded ccc] gm _ _ schema, where upsample_factor = 4
        and return_cc = False]
    by (auto simp: PointList_def)
  then show ?thesis
    by simp
qed

end
